theory Spec2Isabelle
  imports Main "HOL-Library.AList" "HOL-Library.Char_ord" "HOL-Library.List_Lexorder"
begin

section \<open>Values of the host language\<close>

text \<open>
  The autolinking module (\<^verbatim>\<open>autolinking.ts\<close>, compiled to \<^verbatim>\<open>build/autolinking.js\<close>) reads
  JSON files and merges option objects whose shape is not fixed by the code, so values are
  modelled dynamically. Numbers are integers: the program never computes with a number, it
  only tests whether one is zero or positive. A value read from a JSON file or given as an
  option is the association list of its own enumerable properties, in insertion order, with
  distinct keys. The objects the code creates itself with \<^verbatim>\<open>{}\<close> and uses under keys that
  the input chooses are modelled with what they inherit from \<^verbatim>\<open>Object.prototype\<close>; see
  \<open>Object_prototype_keys\<close> and \<open>ordinary_object\<close> below. One rule of the host language is
  left out: keys which are canonical array indices are enumerated before all others.
\<close>

datatype jsval =
    JUndefined
  | JNull
  | JBool bool
  | JNum int
  | JStr string
  | JArr "jsval list"
  | JObj "(string \<times> jsval) list"

type_synonym jsobject = "(string \<times> jsval) list"

datatype error =
    TypeError string
  | ModuleNotFound string
  | HostError string

text \<open>What a call of an asynchronous function comes to: a value, a thrown error (a rejected
  promise), or a promise that never settles.\<close>

datatype 'a outcome = Returns 'a | Throws error | Diverges

fun truthy :: "jsval \<Rightarrow> bool" where
  "truthy JUndefined = False"
| "truthy JNull = False"
| "truthy (JBool b) = b"
| "truthy (JNum n) = (n \<noteq> 0)"
| "truthy (JStr s) = (s \<noteq> [])"
| "truthy (JArr xs) = True"
| "truthy (JObj kvs) = True"

fun show_nat :: "nat \<Rightarrow> string" where
  "show_nat n =
     (if n < 10 then [''0123456789'' ! n]
      else show_nat (n div 10) @ [''0123456789'' ! (n mod 10)])"

declare show_nat.simps [simp del]

definition show_int :: "int \<Rightarrow> string" where
  "show_int i = (if i < 0 then CHR ''-'' # show_nat (nat (- i)) else show_nat (nat i))"

fun join_with :: "string \<Rightarrow> string list \<Rightarrow> string" where
  "join_with sep [] = []"
| "join_with sep [x] = x"
| "join_with sep (x # y # ys) = x @ sep @ join_with sep (y # ys)"

text \<open>\<^verbatim>\<open>ToString\<close>, as used by template strings, property keys and \<^verbatim>\<open>String.prototype.includes\<close>.\<close>

fun ToString :: "jsval \<Rightarrow> string" where
  "ToString JUndefined = ''undefined''"
| "ToString JNull = ''null''"
| "ToString (JBool b) = (if b then ''true'' else ''false'')"
| "ToString (JNum n) = show_int n"
| "ToString (JStr s) = s"
| "ToString (JArr xs) =
     join_with '','' (map (\<lambda>x. if x = JUndefined \<or> x = JNull then [] else ToString x) xs)"
| "ToString (JObj kvs) = ''[object Object]''"

text \<open>The own enumerable string-keyed properties of a value, in enumeration order: what
  \<^verbatim>\<open>Object.assign\<close> and object spread copy from a source.\<close>

fun own_entries :: "jsval \<Rightarrow> jsobject" where
  "own_entries (JObj kvs) = kvs"
| "own_entries (JArr xs) = zip (map show_nat [0..<length xs]) xs"
| "own_entries (JStr s) = zip (map show_nat [0..<length s]) (map (\<lambda>c. JStr [c]) s)"
| "own_entries _ = []"

text \<open>Property read \<^verbatim>\<open>v[k]\<close> on a value that is neither \<^verbatim>\<open>null\<close> nor \<^verbatim>\<open>undefined\<close>, at a
  key that the prototypes of the language do not define. The code reads the values of the
  JSON files at the keys \<^verbatim>\<open>expo\<close>, \<^verbatim>\<open>autolinking\<close>, \<^verbatim>\<open>platforms\<close>, \<^verbatim>\<open>packageName\<close> and
  \<^verbatim>\<open>length\<close>, and at the name of the platform.\<close>

fun js_get :: "jsval \<Rightarrow> string \<Rightarrow> jsval" where
  "js_get (JObj kvs) k = (case map_of kvs k of Some v \<Rightarrow> v | None \<Rightarrow> JUndefined)"
| "js_get (JArr xs) k =
     (case find (\<lambda>i. show_nat i = k) [0..<length xs] of
        Some i \<Rightarrow> xs ! i
      | None \<Rightarrow> if k = ''length'' then JNum (int (length xs)) else JUndefined)"
| "js_get (JStr s) k =
     (case find (\<lambda>i. show_nat i = k) [0..<length s] of
        Some i \<Rightarrow> JStr [s ! i]
      | None \<Rightarrow> if k = ''length'' then JNum (int (length s)) else JUndefined)"
| "js_get _ k = JUndefined"

text \<open>The names of the members of \<^verbatim>\<open>Object.prototype\<close>, which every object created by
  \<^verbatim>\<open>{}\<close> inherits. All of them are functions, except \<^verbatim>\<open>__proto__\<close>, an accessor whose
  getter returns the prototype and whose setter replaces it; read from an object that has
  no own property of the name, each of them is a truthy value that is not a string.\<close>

definition Object_prototype_keys :: "string list" where
  "Object_prototype_keys =
     [''constructor'', ''__defineGetter__'', ''__defineSetter__'', ''hasOwnProperty'',
      ''__lookupGetter__'', ''__lookupSetter__'', ''isPrototypeOf'', ''propertyIsEnumerable'',
      ''toString'', ''valueOf'', ''__proto__'', ''toLocaleString'']"

text \<open>Object spread \<^verbatim>\<open>...source\<close> in an object literal that has the properties \<open>target\<close>
  so far: every own property of the source is defined on the new object as a data property
  of its own, whatever the key, later definitions winning; a key keeps the position of its
  first definition.\<close>

definition copy_data_properties :: "jsobject \<Rightarrow> jsval \<Rightarrow> jsobject" where
  "copy_data_properties target source =
     fold (\<lambda>(k, v) t. AList.update k v t) (own_entries source) target"

text \<open>An object with its prototype: its own properties, and the object it inherits from,
  which is \<^verbatim>\<open>Object.prototype\<close> for an object created by \<^verbatim>\<open>{}\<close>, and can be replaced by
  \<^verbatim>\<open>null\<close> or by another object through the setter of \<^verbatim>\<open>__proto__\<close>.\<close>

datatype prototype = ObjectPrototype | NullPrototype | PrototypeValue jsval

datatype ordinary_object =
  OrdinaryObject (own_properties: jsobject) (prototype_of: prototype)

definition empty_object :: ordinary_object where
  "empty_object = OrdinaryObject [] ObjectPrototype"

fun is_object :: "jsval \<Rightarrow> bool" where
  "is_object (JArr xs) = True"
| "is_object (JObj kvs) = True"
| "is_object _ = False"

text \<open>Property read \<^verbatim>\<open>obj[k]\<close> on such an object, at a key that \<^verbatim>\<open>Object.prototype\<close> and
  \<^verbatim>\<open>Array.prototype\<close> do not define: an own property first, then a property of the
  prototype. The code reads its options at the keys \<^verbatim>\<open>searchPaths\<close>, \<^verbatim>\<open>exclude\<close> and
  \<^verbatim>\<open>platform\<close>.\<close>

definition get_property :: "ordinary_object \<Rightarrow> string \<Rightarrow> jsval" where
  "get_property obj k =
     (case map_of (own_properties obj) k of
        Some v \<Rightarrow> v
      | None \<Rightarrow> (case prototype_of obj of PrototypeValue p \<Rightarrow> js_get p k | _ \<Rightarrow> JUndefined))"

text \<open>Whether a write at \<^verbatim>\<open>__proto__\<close>, on an object with no own property of that name,
  arrives at the setter of \<^verbatim>\<open>Object.prototype\<close>: not when the prototype is \<^verbatim>\<open>null\<close>, and
  not when the prototype has a data property of its own under that name, as an object read
  from JSON can have.\<close>

definition reaches_proto_setter :: "ordinary_object \<Rightarrow> bool" where
  "reaches_proto_setter obj =
     (case prototype_of obj of
        ObjectPrototype \<Rightarrow> True
      | NullPrototype \<Rightarrow> False
      | PrototypeValue p \<Rightarrow> ''__proto__'' \<notin> set (map fst (own_entries p)))"

text \<open>The write \<^verbatim>\<open>obj[k] = v\<close>. Every property met on the way is a writable data property,
  so the write makes or changes an own property, but for one case: at \<^verbatim>\<open>__proto__\<close> the
  setter replaces the prototype by \<open>v\<close> when \<open>v\<close> is an object or \<^verbatim>\<open>null\<close>, does nothing for
  any other \<open>v\<close>, and no own property is made.\<close>

definition set_property :: "string \<Rightarrow> jsval \<Rightarrow> ordinary_object \<Rightarrow> ordinary_object" where
  "set_property k v obj =
     (if k = ''__proto__'' \<and> map_of (own_properties obj) k = None \<and> reaches_proto_setter obj
      then (if v = JNull then OrdinaryObject (own_properties obj) NullPrototype
            else if is_object v then OrdinaryObject (own_properties obj) (PrototypeValue v)
            else obj)
      else OrdinaryObject (AList.update k v (own_properties obj)) (prototype_of obj))"

text \<open>\<^verbatim>\<open>Object.assign(target, ...sources)\<close>: every own property of every source is written
  to the target with the write above, in the order of the sources.\<close>

definition Object_assign :: "ordinary_object \<Rightarrow> jsval list \<Rightarrow> ordinary_object" where
  "Object_assign target sources =
     fold (\<lambda>source obj. fold (\<lambda>(k, v) obj'. set_property k v obj') (own_entries source) obj)
       sources target"

text \<open>\<^verbatim>\<open>SameValueZero\<close> between two values that are not the same object: primitives are
  compared by value, and an array or an object equals nothing but itself.\<close>

fun same_value_zero :: "jsval \<Rightarrow> jsval \<Rightarrow> bool" where
  "same_value_zero (JArr xs) y = False"
| "same_value_zero (JObj kvs) y = False"
| "same_value_zero x y = (x = y)"

definition is_substring :: "string \<Rightarrow> string \<Rightarrow> bool" where
  "is_substring t s = list_ex (\<lambda>i. take (length t) (drop i s) = t) [0..<Suc (length s)]"

text \<open>\<^verbatim>\<open>receiver?.includes(arg)\<close>, converted to a boolean: \<^verbatim>\<open>Array.prototype.includes\<close>
  on an array, \<^verbatim>\<open>String.prototype.includes\<close> on a string, \<^verbatim>\<open>undefined\<close> (falsy) when the
  receiver is missing, and a \<^verbatim>\<open>TypeError\<close> on any other receiver, which has no such method.\<close>

fun optional_includes :: "jsval \<Rightarrow> jsval \<Rightarrow> error + bool" where
  "optional_includes JUndefined arg = Inr False"
| "optional_includes JNull arg = Inr False"
| "optional_includes (JArr xs) arg = Inr (list_ex (\<lambda>x. same_value_zero x arg) xs)"
| "optional_includes (JStr s) arg = Inr (is_substring (ToString arg) s)"
| "optional_includes _ arg = Inl (TypeError ''includes is not a function'')"


section \<open>Data model\<close>

text \<open>\<^verbatim>\<open>PackageRevision\<close>: one directory claiming to provide a module. The optional list of
  duplicates is only present on the primary revision of a name.\<close>

datatype package_revision =
  PackageRevision (path: string) (version: string) (duplicates: "package_revision list option")

text \<open>\<^verbatim>\<open>SearchResults\<close>: an object used as a dictionary from module names to primary
  revisions; the list holds its own properties.\<close>

type_synonym search_results = "(string \<times> package_revision) list"

text \<open>The \<^verbatim>\<open>package.json\<close> of a package is read for its name and its version only. Both
  are strings, as the manifest of an installed package has them and as the types of
  \<^verbatim>\<open>PackageRevision\<close> and \<^verbatim>\<open>SearchResults\<close> declare them; this record is what
  \<^verbatim>\<open>const { name, version } = require(...)\<close> takes from the file.\<close>

record manifest =
  manifest_name :: string
  manifest_version :: string

text \<open>What \<^verbatim>\<open>require\<close> gives for a JSON file: the value that the file holds, and the two
  strings that the destructuring above finds in it under \<^verbatim>\<open>name\<close> and \<^verbatim>\<open>version\<close>.\<close>

datatype loaded_module =
  LoadedModule (loaded_exports: jsval) (loaded_name: string) (loaded_version: string)

text \<open>The written files, and the lines printed by \<^verbatim>\<open>console.error\<close>.\<close>

record world =
  artifacts :: "(string \<times> string) list"
  console_error :: "string list"

text \<open>What a module under \<^verbatim>\<open>./platforms/\<close> exports. Either function may be missing. The
  resolver returns a descriptor or a falsy value, or throws; the generator changes the written
  files and may throw.\<close>

record platform_linking =
  platform_resolveModuleAsync ::
    "(string \<Rightarrow> package_revision \<Rightarrow> jsobject \<Rightarrow> error + jsval) option"
  platform_generatePackageListAsync ::
    "(jsval list \<Rightarrow> jsval \<Rightarrow> jsval \<Rightarrow> (string \<times> string) list
        \<Rightarrow> (string \<times> string) list \<times> error option) option"

text \<open>Everything the module takes from its environment: the working directory, the
  \<^verbatim>\<open>path\<close> functions, \<^verbatim>\<open>find-up\<close>, \<^verbatim>\<open>fast-glob\<close>, \<^verbatim>\<open>fs.realpath\<close>, the module loader
  \<^verbatim>\<open>require\<close>, \<^verbatim>\<open>String.prototype.localeCompare\<close>, \<^verbatim>\<open>chalk.red\<close>, and whether the number
  a string converts to is positive. The loader is \<open>require\<close> for the JSON files of the
  project and of the packages, configs and manifests alike, and \<open>require_platform\<close> for the
  modules of the program itself under \<^verbatim>\<open>./platforms/\<close>, which export functions.\<close>

record host =
  cwd :: string
  path_resolve :: "string \<Rightarrow> string \<Rightarrow> string"
  path_join :: "string list \<Rightarrow> string"
  path_dirname :: "string \<Rightarrow> string"
  path_basename :: "string \<Rightarrow> string"
  findUp :: "string \<Rightarrow> string \<Rightarrow> string option"
  glob :: "string list \<Rightarrow> string \<Rightarrow> error + string list"
  realpath :: "string \<Rightarrow> error + string"
  require :: "string \<Rightarrow> error + loaded_module"
  require_platform :: "string \<Rightarrow> error + platform_linking"
  localeCompare :: "string \<Rightarrow> string \<Rightarrow> int"
  chalk_red :: "string \<Rightarrow> string"
  string_to_number_positive :: "string \<Rightarrow> bool"

text \<open>\<^verbatim>\<open>require(p)\<close> where the code uses the loaded value as it is.\<close>

definition require_json :: "host \<Rightarrow> string \<Rightarrow> error + jsval" where
  "require_json h p =
     (case require h p of Inl e \<Rightarrow> Inl e | Inr loaded \<Rightarrow> Inr (loaded_exports loaded))"

text \<open>\<^verbatim>\<open>const { name, version } = require(p)\<close>: the same loader; destructuring \<^verbatim>\<open>null\<close>
  throws.\<close>

definition require_manifest :: "host \<Rightarrow> string \<Rightarrow> error + manifest" where
  "require_manifest h p =
     (case require h p of
        Inl e \<Rightarrow> Inl e
      | Inr loaded \<Rightarrow>
          if loaded_exports loaded = JNull \<or> loaded_exports loaded = JUndefined
          then Inl (TypeError ''Cannot destructure property name'')
          else Inr \<lparr>manifest_name = loaded_name loaded,
                     manifest_version = loaded_version loaded\<rparr>)"

section \<open>Search paths\<close>

definition EXPO_MODULE_CONFIG_FILENAMES :: "string list" where
  "EXPO_MODULE_CONFIG_FILENAMES = [''unimodule.json'', ''expo-module.config.json'']"

text \<open>The loop of \<^verbatim>\<open>findDefaultPathsAsync\<close>. Nothing in it bounds the number of rounds, so it
  is a partial function: \<open>None\<close> means that the loop never ends.\<close>

partial_function (option) findDefaultPathsLoop ::
  "host \<Rightarrow> string \<Rightarrow> string list \<Rightarrow> string list option" where
  "findDefaultPathsLoop h dir paths =
     (case findUp h ''package.json'' dir of
        None \<Rightarrow> Some paths
      | Some pkgJsonPath \<Rightarrow>
          if pkgJsonPath = [] then Some paths
          else findDefaultPathsLoop h (path_dirname h (path_dirname h pkgJsonPath))
                 (paths @ [path_join h [pkgJsonPath, ''..'', ''node_modules'']]))"

declare findDefaultPathsLoop.simps [code]

definition findDefaultPathsAsync :: "host \<Rightarrow> string \<Rightarrow> string list outcome" where
  "findDefaultPathsAsync h cwd' =
     (case findDefaultPathsLoop h cwd' [] of None \<Rightarrow> Diverges | Some paths \<Rightarrow> Returns paths)"

text \<open>\<^verbatim>\<open>v > 0\<close> for an arbitrary value.\<close>

fun greater_than_zero :: "host \<Rightarrow> jsval \<Rightarrow> bool" where
  "greater_than_zero h (JNum n) = (n > 0)"
| "greater_than_zero h (JBool b) = b"
| "greater_than_zero h (JStr s) = string_to_number_positive h s"
| "greater_than_zero h (JArr xs) = string_to_number_positive h (ToString (JArr xs))"
| "greater_than_zero h _ = False"

fun is_JStr :: "jsval \<Rightarrow> bool" where
  "is_JStr (JStr s) = True"
| "is_JStr _ = False"

text \<open>\<^verbatim>\<open>searchPaths.map(searchPath => path.resolve(cwd, searchPath))\<close>: only an array has
  \<^verbatim>\<open>map\<close>, and \<^verbatim>\<open>path.resolve\<close> throws on an argument that is not a string.\<close>

fun map_resolve :: "host \<Rightarrow> string \<Rightarrow> jsval \<Rightarrow> error + string list" where
  "map_resolve h cwd' (JArr xs) =
     (if list_all is_JStr xs then Inr (map (\<lambda>x. path_resolve h cwd' (ToString x)) xs)
      else Inl (TypeError ''The path argument must be of type string''))"
| "map_resolve h cwd' _ = Inl (TypeError ''searchPaths.map is not a function'')"

definition resolveSearchPathsAsync :: "host \<Rightarrow> jsval \<Rightarrow> string \<Rightarrow> string list outcome" where
  "resolveSearchPathsAsync h searchPaths cwd' =
     (if truthy searchPaths \<and> greater_than_zero h (js_get searchPaths ''length'')
      then (case map_resolve h cwd' searchPaths of Inl e \<Rightarrow> Throws e | Inr ps \<Rightarrow> Returns ps)
      else findDefaultPathsAsync h cwd')"

definition findPackageJsonPathAsync :: "host \<Rightarrow> string option" where
  "findPackageJsonPathAsync h = findUp h ''package.json'' (cwd h)"

section \<open>Merging the options\<close>

text \<open>\<^verbatim>\<open>packageJson.expo?.autolinking\<close>: reading a property of \<^verbatim>\<open>null\<close> throws, and the
  optional chain stops at a missing \<^verbatim>\<open>expo\<close>.\<close>

definition baseOptions_of :: "jsval \<Rightarrow> error + jsval" where
  "baseOptions_of packageJson =
     (if packageJson = JNull \<or> packageJson = JUndefined
      then Inl (TypeError ''Cannot read property expo'')
      else let expo = js_get packageJson ''expo''
           in if expo = JNull \<or> expo = JUndefined then Inr JUndefined
              else Inr (js_get expo ''autolinking''))"

text \<open>\<^verbatim>\<open>providedOptions.platform && baseOptions?.[providedOptions.platform]\<close>. The value is
  only used as a source of \<^verbatim>\<open>Object.assign\<close>, where a member that the section inherits
  from a prototype (a function, or a prototype without enumerable properties) gives nothing,
  as \<^verbatim>\<open>undefined\<close> does.\<close>

definition platformOptions_of :: "jsobject \<Rightarrow> jsval \<Rightarrow> jsval" where
  "platformOptions_of providedOptions baseOptions =
     (let platform = js_get (JObj providedOptions) ''platform''
      in if \<not> truthy platform then platform
         else if baseOptions = JNull \<or> baseOptions = JUndefined then JUndefined
         else js_get baseOptions (ToString platform))"

text \<open>\<^verbatim>\<open>packageJsonPath ? require(packageJsonPath) : {}\<close>\<close>

definition root_packageJson :: "host \<Rightarrow> error + jsval" where
  "root_packageJson h =
     (case findPackageJsonPathAsync h of
        None \<Rightarrow> Inr (JObj [])
      | Some packageJsonPath \<Rightarrow>
          if packageJsonPath = [] then Inr (JObj []) else require_json h packageJsonPath)"

definition mergeLinkingOptionsAsync :: "host \<Rightarrow> jsobject \<Rightarrow> ordinary_object outcome" where
  "mergeLinkingOptionsAsync h providedOptions =
     (case root_packageJson h of
        Inl e \<Rightarrow> Throws e
      | Inr packageJson \<Rightarrow>
          (case baseOptions_of packageJson of
             Inl e \<Rightarrow> Throws e
           | Inr baseOptions \<Rightarrow>
               let platformOptions = platformOptions_of providedOptions baseOptions;
                   finalOptions =
                     Object_assign empty_object
                       [baseOptions, platformOptions, JObj providedOptions]
               in (case resolveSearchPathsAsync h (get_property finalOptions ''searchPaths'')
                          (cwd h) of
                     Diverges \<Rightarrow> Diverges
                   | Throws e \<Rightarrow> Throws e
                   | Returns paths \<Rightarrow>
                       Returns (set_property ''searchPaths'' (JArr (map JStr paths))
                                  finalOptions))))"

section \<open>Finding the modules\<close>

fun indexOf :: "'a list \<Rightarrow> 'a \<Rightarrow> int" where
  "indexOf [] x = - 1"
| "indexOf (y # ys) x =
     (if y = x then 0 else let i = indexOf ys x in if i < 0 then - 1 else i + 1)"

definition configPriority :: "host \<Rightarrow> string \<Rightarrow> int" where
  "configPriority h fullpath = indexOf EXPO_MODULE_CONFIG_FILENAMES (path_basename h fullpath)"

definition bracedFilenames :: string where
  "bracedFilenames = ''{'' @ join_with '','' EXPO_MODULE_CONFIG_FILENAMES @ ''}''"

definition glob_patterns :: "string list" where
  "glob_patterns = [''*/'' @ bracedFilenames, ''@*/*/'' @ bracedFilenames]"

text \<open>The function given to \<^verbatim>\<open>paths.reduce\<close>: one config path per directory, replaced by a
  path of higher priority. The accumulator is created by \<^verbatim>\<open>{}\<close>, and the list holds its own
  properties. For a directory named like a member of \<^verbatim>\<open>Object.prototype\<close> the read
  \<^verbatim>\<open>acc[dirname]\<close> gives that member, which is truthy, and \<^verbatim>\<open>configPriority\<close> of it throws,
  because \<^verbatim>\<open>path.basename\<close> accepts a string only.\<close>

definition keep_config ::
  "host \<Rightarrow> string \<Rightarrow> (string \<times> string) list \<Rightarrow> error + (string \<times> string) list" where
  "keep_config h configPath acc =
     (let dirname = path_dirname h configPath
      in (case map_of acc dirname of
            None \<Rightarrow>
              if dirname \<in> set Object_prototype_keys
              then Inl (TypeError ''The path argument must be of type string'')
              else Inr (AList.update dirname configPath acc)
          | Some kept \<Rightarrow>
              if kept = [] \<or> configPriority h configPath > configPriority h kept
              then Inr (AList.update dirname configPath acc)
              else Inr acc))"

fun reduce_configs ::
  "host \<Rightarrow> string list \<Rightarrow> (string \<times> string) list \<Rightarrow> error + (string \<times> string) list" where
  "reduce_configs h [] acc = Inr acc"
| "reduce_configs h (configPath # rest) acc =
     (case keep_config h configPath acc of
        Inl e \<Rightarrow> Inl e
      | Inr acc' \<Rightarrow> reduce_configs h rest acc')"

definition uniqueConfigPaths :: "host \<Rightarrow> string list \<Rightarrow> error + string list" where
  "uniqueConfigPaths h paths =
     (case reduce_configs h paths [] of Inl e \<Rightarrow> Inl e | Inr acc \<Rightarrow> Inr (map snd acc))"

text \<open>The condition of the \<^verbatim>\<open>continue\<close>: the package is excluded, or its config does not
  list the platform. The second test is not evaluated when the first one holds.\<close>

definition skip_package :: "ordinary_object \<Rightarrow> string \<Rightarrow> jsval \<Rightarrow> error + bool" where
  "skip_package options name packageConfig =
     (case optional_includes (get_property options ''exclude'') (JStr name) of
        Inl e \<Rightarrow> Inl e
      | Inr True \<Rightarrow> Inr True
      | Inr False \<Rightarrow>
          if packageConfig = JNull \<or> packageConfig = JUndefined
          then Inl (TypeError ''Cannot read property platforms'')
          else (case optional_includes (js_get packageConfig ''platforms'')
                       (get_property options ''platform'') of
                  Inl e \<Rightarrow> Inl e
                | Inr b \<Rightarrow> Inr (\<not> b)))"

text \<open>The fold of one found revision into the results: the first revision of a name is the
  primary one; a later one is pushed to the duplicates when its path is new. The results are
  created by \<^verbatim>\<open>{}\<close>: for a name that is a member of \<^verbatim>\<open>Object.prototype\<close> the read
  \<^verbatim>\<open>results[name]\<close> gives that member, which is truthy and has neither a \<^verbatim>\<open>path\<close> nor
  \<^verbatim>\<open>duplicates\<close>, so neither branch does anything.\<close>

definition record_revision ::
  "string \<Rightarrow> package_revision \<Rightarrow> search_results \<Rightarrow> search_results" where
  "record_revision name currentRevision results =
     (case map_of results name of
        None \<Rightarrow>
          if name \<in> set Object_prototype_keys then results
          else AList.update name
                 (PackageRevision (path currentRevision) (version currentRevision) (Some []))
                 results
      | Some primary \<Rightarrow>
          (case duplicates primary of
             None \<Rightarrow> results
           | Some ds \<Rightarrow>
               if path primary \<noteq> path currentRevision
                  \<and> list_all (\<lambda>d. path d \<noteq> path currentRevision) ds
               then AList.update name
                      (PackageRevision (path primary) (version primary)
                         (Some (ds @ [currentRevision]))) results
               else results))"

text \<open>The body of the inner loop, for one config path of one search path.\<close>

definition visit_package ::
  "host \<Rightarrow> ordinary_object \<Rightarrow> string \<Rightarrow> string \<Rightarrow> search_results \<Rightarrow> error + search_results"
  where
  "visit_package h options searchPath packageConfigPath results =
     (case realpath h (path_join h [searchPath, path_dirname h packageConfigPath]) of
        Inl e \<Rightarrow> Inl e
      | Inr packagePath \<Rightarrow>
     (case require_json h (path_join h [packagePath, path_basename h packageConfigPath]) of
        Inl e \<Rightarrow> Inl e
      | Inr packageConfig \<Rightarrow>
     (case require_manifest h (path_join h [packagePath, ''package.json'']) of
        Inl e \<Rightarrow> Inl e
      | Inr m \<Rightarrow>
     (case skip_package options (manifest_name m) packageConfig of
        Inl e \<Rightarrow> Inl e
      | Inr True \<Rightarrow> Inr results
      | Inr False \<Rightarrow>
          Inr (record_revision (manifest_name m)
                 (PackageRevision packagePath (manifest_version m) None) results)))))"

fun visit_packages ::
  "host \<Rightarrow> ordinary_object \<Rightarrow> string \<Rightarrow> string list \<Rightarrow> search_results
     \<Rightarrow> error + search_results" where
  "visit_packages h options searchPath [] results = Inr results"
| "visit_packages h options searchPath (packageConfigPath # rest) results =
     (case visit_package h options searchPath packageConfigPath results of
        Inl e \<Rightarrow> Inl e
      | Inr results' \<Rightarrow> visit_packages h options searchPath rest results')"

text \<open>The outer loop, over the search paths in their order.\<close>

fun scan_searchPaths ::
  "host \<Rightarrow> ordinary_object \<Rightarrow> string list \<Rightarrow> search_results \<Rightarrow> error + search_results" where
  "scan_searchPaths h options [] results = Inr results"
| "scan_searchPaths h options (searchPath # rest) results =
     (case glob h glob_patterns searchPath of
        Inl e \<Rightarrow> Inl e
      | Inr paths \<Rightarrow>
          (case uniqueConfigPaths h paths of
             Inl e \<Rightarrow> Inl e
           | Inr kept \<Rightarrow>
               (case visit_packages h options searchPath kept results of
                  Inl e \<Rightarrow> Inl e
                | Inr results' \<Rightarrow> scan_searchPaths h options rest results')))"

text \<open>The elements of \<^verbatim>\<open>options.searchPaths\<close>, which \<^verbatim>\<open>mergeLinkingOptionsAsync\<close> has set to
  an array of strings.\<close>

definition searchPaths_of :: "ordinary_object \<Rightarrow> string list" where
  "searchPaths_of options =
     (case get_property options ''searchPaths'' of
        JArr xs \<Rightarrow> map ToString (filter is_JStr xs)
      | _ \<Rightarrow> [])"

definition findModulesAsync :: "host \<Rightarrow> jsobject \<Rightarrow> search_results outcome" where
  "findModulesAsync h providedOptions =
     (case mergeLinkingOptionsAsync h providedOptions of
        Diverges \<Rightarrow> Diverges
      | Throws e \<Rightarrow> Throws e
      | Returns options \<Rightarrow>
          (case scan_searchPaths h options (searchPaths_of options) [] of
             Inl e \<Rightarrow> Throws e
           | Inr results \<Rightarrow> Returns results))"

section \<open>Resolving the modules\<close>

text \<open>\<^verbatim>\<open>Promise.all\<close> over promises whose eventual results are given. The promises settle in
  the order \<open>completion\<close>, a list of positions; a position that does not occur in it belongs
  to a promise that never settles. The first rejection rejects the whole, and the values of
  the fulfilled promises are kept by position.\<close>

datatype 'a settling = Rejected error | Pending "'a option list"

definition settle :: "(error + 'a) list \<Rightarrow> nat \<Rightarrow> 'a settling \<Rightarrow> 'a settling" where
  "settle promises i st =
     (case st of
        Rejected e \<Rightarrow> Rejected e
      | Pending slots \<Rightarrow>
          if i < length promises
          then (case promises ! i of
                  Inl e \<Rightarrow> Rejected e
                | Inr v \<Rightarrow> Pending (slots[i := Some v]))
          else Pending slots)"

definition Promise_all :: "nat list \<Rightarrow> (error + 'a) list \<Rightarrow> 'a list outcome" where
  "Promise_all completion promises =
     (case fold (settle promises) completion (Pending (replicate (length promises) None)) of
        Rejected e \<Rightarrow> Throws e
      | Pending slots \<Rightarrow>
          if list_all (\<lambda>slot. slot \<noteq> None) slots then Returns (map the slots) else Diverges)"

text \<open>The asynchronous function mapped over \<^verbatim>\<open>Object.entries(searchResults)\<close>. The spread
  of the resolved module comes last, so its properties win.\<close>

definition resolve_entry ::
  "platform_linking \<Rightarrow> jsobject \<Rightarrow> string \<times> package_revision \<Rightarrow> error + jsval" where
  "resolve_entry platformLinking options entry =
     (case entry of (packageName, revision) \<Rightarrow>
        (case platform_resolveModuleAsync platformLinking of
           None \<Rightarrow> Inl (TypeError ''platformLinking.resolveModuleAsync is not a function'')
         | Some resolveModuleAsync \<Rightarrow>
             (case resolveModuleAsync packageName revision options of
                Inl e \<Rightarrow> Inl e
              | Inr resolvedModule \<Rightarrow>
                  if truthy resolvedModule
                  then Inr (JObj (copy_data_properties
                                    [(''packageName'', JStr packageName),
                                     (''packageVersion'', JStr (version revision))]
                                    resolvedModule))
                  else Inr JNull)))"

text \<open>\<^verbatim>\<open>a.packageName.localeCompare(b.packageName)\<close>: the receiver must be a string, the
  argument is converted to one.\<close>

definition compare_packageName :: "host \<Rightarrow> jsval \<Rightarrow> jsval \<Rightarrow> error + int" where
  "compare_packageName h a b =
     (case js_get a ''packageName'' of
        JStr s \<Rightarrow> Inr (localeCompare h s (ToString (js_get b ''packageName'')))
      | _ \<Rightarrow> Inl (TypeError ''a.packageName.localeCompare is not a function''))"

text \<open>\<^verbatim>\<open>Array.prototype.sort\<close> with that comparator, as a stable insertion sort. The
  language fixes the result for a consistent comparator, not the comparisons that are made;
  an exception of the comparator ends the sort.\<close>

fun insert_sorted :: "host \<Rightarrow> jsval \<Rightarrow> jsval list \<Rightarrow> error + jsval list" where
  "insert_sorted h a [] = Inr [a]"
| "insert_sorted h a (b # bs) =
     (case compare_packageName h a b of
        Inl e \<Rightarrow> Inl e
      | Inr c \<Rightarrow>
          if c \<le> 0 then Inr (a # b # bs)
          else (case insert_sorted h a bs of Inl e \<Rightarrow> Inl e | Inr bs' \<Rightarrow> Inr (b # bs')))"

fun sort_by_packageName :: "host \<Rightarrow> jsval list \<Rightarrow> error + jsval list" where
  "sort_by_packageName h [] = Inr []"
| "sort_by_packageName h (a # as) =
     (case sort_by_packageName h as of Inl e \<Rightarrow> Inl e | Inr bs \<Rightarrow> insert_sorted h a bs)"

definition resolveModulesAsync ::
  "host \<Rightarrow> nat list \<Rightarrow> search_results \<Rightarrow> jsobject \<Rightarrow> jsval list outcome" where
  "resolveModulesAsync h completion searchResults options =
     (case require_platform h (''./platforms/'' @ ToString (js_get (JObj options) ''platform'')) of
        Inl e \<Rightarrow> Throws e
      | Inr platformLinking \<Rightarrow>
          (case Promise_all completion
                  (map (resolve_entry platformLinking options) searchResults) of
             Diverges \<Rightarrow> Diverges
           | Throws e \<Rightarrow> Throws e
           | Returns resolved \<Rightarrow>
               (case sort_by_packageName h (filter truthy resolved) of
                  Inl e \<Rightarrow> Throws e
                | Inr descriptors \<Rightarrow> Returns descriptors)))"

section \<open>Generating the package list\<close>

text \<open>The \<^verbatim>\<open>catch\<close> block: one line on \<^verbatim>\<open>console.error\<close>.\<close>

definition report_unavailable :: "host \<Rightarrow> jsobject \<Rightarrow> world \<Rightarrow> world" where
  "report_unavailable h options w =
     w\<lparr>console_error := console_error w @
          [chalk_red h (''Generating package list is not available for platform: ''
                          @ ToString (js_get (JObj options) ''platform''))]\<rparr>"

definition generatePackageListAsync ::
  "host \<Rightarrow> jsval list \<Rightarrow> jsobject \<Rightarrow> world \<Rightarrow> unit outcome \<times> world" where
  "generatePackageListAsync h modules options w =
     (case require_platform h (''./platforms/'' @ ToString (js_get (JObj options) ''platform'')) of
        Inl e \<Rightarrow> (Returns (), report_unavailable h options w)
      | Inr platformLinking \<Rightarrow>
          (case platform_generatePackageListAsync platformLinking of
             None \<Rightarrow> (Returns (), report_unavailable h options w)
           | Some generate \<Rightarrow>
               (case generate modules (js_get (JObj options) ''target'')
                       (js_get (JObj options) ''namespace'') (artifacts w) of
                  (written, None) \<Rightarrow> (Returns (), w\<lparr>artifacts := written\<rparr>)
                | (written, Some e) \<Rightarrow>
                    (Returns (), report_unavailable h options (w\<lparr>artifacts := written\<rparr>)))))"

section \<open>A concrete host\<close>

text \<open>A small POSIX file system on which the definitions run: paths as strings, a list of
  the files, symbolic links of directories, and the contents of the JSON files, from which
  the name and the version of a manifest are taken. Its
  comparison of strings orders letters without regard to case first and puts the lower-case
  letter first among equals, as the collation behind \<^verbatim>\<open>localeCompare\<close> does on letters.\<close>

fun split_on :: "char \<Rightarrow> string \<Rightarrow> string list" where
  "split_on c [] = [[]]"
| "split_on c (x # xs) =
     (if x = c then [] # split_on c xs
      else (case split_on c xs of [] \<Rightarrow> [[x]] | y # ys \<Rightarrow> (x # y) # ys))"

definition is_absolute :: "string \<Rightarrow> bool" where
  "is_absolute p = (case p of [] \<Rightarrow> False | c # _ \<Rightarrow> c = CHR ''/'')"

fun normalize_parts :: "bool \<Rightarrow> string list \<Rightarrow> string list \<Rightarrow> string list" where
  "normalize_parts absolute [] stack = rev stack"
| "normalize_parts absolute (part # parts) stack =
     (if part = [] \<or> part = ''.'' then normalize_parts absolute parts stack
      else if part = ''..'' then
        (case stack of
           [] \<Rightarrow> normalize_parts absolute parts (if absolute then [] else [''..''])
         | part' # below \<Rightarrow>
             if part' = ''..'' then normalize_parts absolute parts (''..'' # stack)
             else normalize_parts absolute parts below)
      else normalize_parts absolute parts (part # stack))"

definition posix_normalize :: "string \<Rightarrow> string" where
  "posix_normalize p =
     (let parts = normalize_parts (is_absolute p) (split_on CHR ''/'' p) []
      in if is_absolute p then CHR ''/'' # join_with ''/'' parts
         else if parts = [] then ''.'' else join_with ''/'' parts)"

definition posix_join :: "string list \<Rightarrow> string" where
  "posix_join parts = posix_normalize (join_with ''/'' (filter (\<lambda>p. p \<noteq> []) parts))"

definition posix_resolve :: "string \<Rightarrow> string \<Rightarrow> string" where
  "posix_resolve base p = posix_normalize (if is_absolute p then p else base @ ''/'' @ p)"

definition posix_dirname :: "string \<Rightarrow> string" where
  "posix_dirname p =
     (let d = rev (drop 1 (dropWhile (\<lambda>c. c \<noteq> CHR ''/'') (rev p)))
      in if d = [] then (if is_absolute p then ''/'' else ''.'') else d)"

definition posix_basename :: "string \<Rightarrow> string" where
  "posix_basename p = rev (takeWhile (\<lambda>c. c \<noteq> CHR ''/'') (rev p))"

record filesystem =
  fs_files :: "string list"
  fs_links :: "(string \<times> string) list"
  fs_json :: "(string \<times> jsval) list"

fun walk_up :: "string list \<Rightarrow> string \<Rightarrow> nat \<Rightarrow> string \<Rightarrow> string option" where
  "walk_up files name 0 dir = None"
| "walk_up files name (Suc fuel) dir =
     (if posix_join [dir, name] \<in> set files then Some (posix_join [dir, name])
      else if posix_dirname dir = dir then None
      else walk_up files name fuel (posix_dirname dir))"

definition posix_findUp :: "string list \<Rightarrow> string \<Rightarrow> string \<Rightarrow> string option" where
  "posix_findUp files name dir = walk_up files name (Suc (length dir)) (posix_resolve ''/'' dir)"

definition part_matches :: "string \<Rightarrow> string \<Rightarrow> bool" where
  "part_matches pat part =
     (if pat = ''*'' then part \<noteq> []
      else if pat = ''@*'' then is_absolute (CHR ''/'' # drop 1 part) \<and> take 1 part = ''@''
      else if take 1 pat = ''{'' \<and> take 1 (rev pat) = ''}''
      then part \<in> set (split_on CHR '','' (butlast (drop 1 pat)))
      else part = pat)"

definition pattern_matches :: "string \<Rightarrow> string \<Rightarrow> bool" where
  "pattern_matches pat rel =
     (let ps = split_on CHR ''/'' pat; rs = split_on CHR ''/'' rel
      in length ps = length rs \<and> list_all (\<lambda>(p, r). part_matches p r) (zip ps rs))"

definition posix_glob :: "string list \<Rightarrow> string list \<Rightarrow> string \<Rightarrow> error + string list" where
  "posix_glob files patterns dir =
     Inr (remdups
       (concat (map (\<lambda>f. if take (Suc (length dir)) f = dir @ ''/''
                          \<and> list_ex (\<lambda>pat. pattern_matches pat (drop (Suc (length dir)) f)) patterns
                       then [drop (Suc (length dir)) f] else []) files)))"

fun compare_by :: "(char \<Rightarrow> nat) \<Rightarrow> string \<Rightarrow> string \<Rightarrow> int" where
  "compare_by w [] [] = 0"
| "compare_by w [] (y # ys) = - 1"
| "compare_by w (x # xs) [] = 1"
| "compare_by w (x # xs) (y # ys) =
     (if w x < w y then - 1 else if w y < w x then 1 else compare_by w xs ys)"

definition letter_weight :: "char \<Rightarrow> nat" where
  "letter_weight c =
     (let n = (of_char c :: nat) in if 65 \<le> n \<and> n \<le> 90 then n + 32 else n)"

definition case_weight :: "char \<Rightarrow> nat" where
  "case_weight c = (let n = (of_char c :: nat) in if 65 \<le> n \<and> n \<le> 90 then 1 else 0)"

definition letters_localeCompare :: "string \<Rightarrow> string \<Rightarrow> int" where
  "letters_localeCompare a b =
     (let primary = compare_by letter_weight a b
      in if primary \<noteq> 0 then primary else compare_by case_weight a b)"

definition posix_host ::
  "filesystem \<Rightarrow> string \<Rightarrow> (string \<times> platform_linking) list \<Rightarrow> host" where
  "posix_host fs dir platforms =
     \<lparr> cwd = dir,
       path_resolve = posix_resolve,
       path_join = posix_join,
       path_dirname = posix_dirname,
       path_basename = posix_basename,
       findUp = posix_findUp (fs_files fs),
       glob = posix_glob (fs_files fs),
       realpath = (\<lambda>p. Inr (case map_of (fs_links fs) p of None \<Rightarrow> p | Some t \<Rightarrow> t)),
       require =
         (\<lambda>p. case map_of (fs_json fs) p of
                None \<Rightarrow> Inl (ModuleNotFound p)
              | Some v \<Rightarrow>
                  Inr (LoadedModule v (ToString (js_get v ''name''))
                         (ToString (js_get v ''version'')))),
       require_platform =
         (\<lambda>p. case map_of platforms p of None \<Rightarrow> Inl (ModuleNotFound p) | Some l \<Rightarrow> Inr l),
       localeCompare = letters_localeCompare,
       chalk_red = (\<lambda>s. s),
       string_to_number_positive = (\<lambda>s. False) \<rparr>"


section \<open>Example inputs\<close>

text \<open>The manifest of a project: its \<^verbatim>\<open>expo.autolinking\<close> section excludes a package and
  has a section for iOS, which excludes another one.\<close>

definition app_autolinking_ios :: jsval where
  "app_autolinking_ios = JObj [(''exclude'', JArr [JStr ''zed'']), (''flags'', JObj [])]"

definition app_autolinking :: jsval where
  "app_autolinking =
     JObj [(''exclude'', JArr [JStr ''unused'']),
           (''flags'', JObj [(''inhibit'', JBool True)]),
           (''ios'', app_autolinking_ios)]"

definition app_packageJson :: jsval where
  "app_packageJson =
     JObj [(''name'', JStr ''app''), (''expo'', JObj [(''autolinking'', app_autolinking)])]"

text \<open>A project in \<^verbatim>\<open>/app\<close> and a workspace in \<^verbatim>\<open>/ws\<close>. The package \<^verbatim>\<open>bar\<close> is in both, at
  different places and with both config files in the project; \<^verbatim>\<open>foo-link\<close> is a symbolic link
  to the project's \<^verbatim>\<open>foo\<close>; the config of \<^verbatim>\<open>nop\<close> names no platforms; the project's manifest
  excludes \<^verbatim>\<open>zed\<close> on iOS.\<close>

definition two_paths_fs :: filesystem where
  "two_paths_fs =
     \<lparr> fs_files =
         [''/app/package.json'',
          ''/app/node_modules/bar/unimodule.json'',
          ''/app/node_modules/bar/expo-module.config.json'',
          ''/app/node_modules/foo/expo-module.config.json'',
          ''/app/node_modules/nop/unimodule.json'',
          ''/app/node_modules/zed/unimodule.json'',
          ''/ws/node_modules/bar/unimodule.json'',
          ''/ws/node_modules/foo-link/unimodule.json''],
       fs_links = [(''/ws/node_modules/foo-link'', ''/app/node_modules/foo'')],
       fs_json =
         [(''/app/package.json'', app_packageJson),
          (''/app/node_modules/bar/unimodule.json'', JObj []),
          (''/app/node_modules/bar/expo-module.config.json'',
             JObj [(''platforms'', JArr [JStr ''ios'', JStr ''android''])]),
          (''/app/node_modules/foo/expo-module.config.json'',
             JObj [(''platforms'', JArr [JStr ''ios''])]),
          (''/app/node_modules/foo/unimodule.json'',
             JObj [(''platforms'', JArr [JStr ''ios''])]),
          (''/app/node_modules/nop/unimodule.json'', JObj [(''name'', JStr ''nop'')]),
          (''/app/node_modules/zed/unimodule.json'',
             JObj [(''platforms'', JArr [JStr ''ios''])]),
          (''/ws/node_modules/bar/unimodule.json'',
             JObj [(''platforms'', JArr [JStr ''ios''])]),
          (''/app/node_modules/bar/package.json'',
             JObj [(''name'', JStr ''bar''), (''version'', JStr ''1.0.0'')]),
          (''/app/node_modules/foo/package.json'',
             JObj [(''name'', JStr ''foo''), (''version'', JStr ''2.0.0'')]),
          (''/app/node_modules/nop/package.json'',
             JObj [(''name'', JStr ''nop''), (''version'', JStr ''1.0.0'')]),
          (''/app/node_modules/zed/package.json'',
             JObj [(''name'', JStr ''zed''), (''version'', JStr ''0.1.0'')]),
          (''/ws/node_modules/bar/package.json'',
             JObj [(''name'', JStr ''bar''), (''version'', JStr ''0.9.0'')])] \<rparr>"

text \<open>Two platform modules. The one for iOS resolves a module to its pod, has no pod for the
  package \<^verbatim>\<open>js-only\<close>, fails on the package \<^verbatim>\<open>broken\<close>, and cannot generate a package
  list; the one for Android can.\<close>

definition ios_linking :: platform_linking where
  "ios_linking =
     \<lparr> platform_resolveModuleAsync =
         Some (\<lambda>packageName revision options.
                 if packageName = ''broken'' then Inl (HostError ''no podspec'')
                 else if packageName = ''js-only'' then Inr JNull
                 else Inr (JObj [(''podName'', JStr packageName),
                                 (''podspecDir'', JStr (path revision))])),
       platform_generatePackageListAsync = None \<rparr>"

definition android_linking :: platform_linking where
  "android_linking =
     \<lparr> platform_resolveModuleAsync =
         Some (\<lambda>packageName revision options.
                 Inr (JObj [(''projectName'', JStr packageName),
                            (''sourceDir'', JStr (path revision @ ''/android''))])),
       platform_generatePackageListAsync =
         Some (\<lambda>modules target namespace written.
                 (written @ [(ToString target, ''package '' @ ToString namespace)], None)) \<rparr>"

definition demo_host :: host where
  "demo_host =
     posix_host two_paths_fs ''/app''
       [(''./platforms/ios'', ios_linking), (''./platforms/android'', android_linking)]"


definition two_paths_results :: search_results where
  "two_paths_results =
     [(''bar'',
       PackageRevision ''/app/node_modules/bar'' ''1.0.0''
         (Some [PackageRevision ''/ws/node_modules/bar'' ''0.9.0'' None])),
      (''foo'', PackageRevision ''/app/node_modules/foo'' ''2.0.0'' (Some []))]"

definition two_paths_merged :: ordinary_object where
  "two_paths_merged =
     OrdinaryObject
       [(''exclude'', JArr [JStr ''zed'']),
        (''flags'', JObj []),
        (''ios'', app_autolinking_ios),
        (''platform'', JStr ''ios''),
        (''searchPaths'', JArr [JStr ''/app/node_modules'', JStr ''/ws/node_modules''])]
       ObjectPrototype"

definition two_paths_options :: jsobject where
  "two_paths_options =
     [(''platform'', JStr ''ios''),
      (''searchPaths'', JArr [JStr ''node_modules'', JStr ''/ws/node_modules''])]"

text \<open>A package whose name is \<^verbatim>\<open>constructor\<close>, a valid name for a package and the name of a
  member of \<^verbatim>\<open>Object.prototype\<close>. The project and the workspace have it under the alias
  \<^verbatim>\<open>ctor\<close>, at different places; a third tree has it in the directory of its own name. Every
  config lists the platform, and nothing is excluded.\<close>

definition constructor_fs :: filesystem where
  "constructor_fs =
     \<lparr> fs_files =
         [''/app/node_modules/ctor/expo-module.config.json'',
          ''/ws/node_modules/ctor/expo-module.config.json'',
          ''/own/node_modules/constructor/expo-module.config.json''],
       fs_links = [],
       fs_json =
         [(''/app/node_modules/ctor/expo-module.config.json'',
             JObj [(''platforms'', JArr [JStr ''ios''])]),
          (''/ws/node_modules/ctor/expo-module.config.json'',
             JObj [(''platforms'', JArr [JStr ''ios''])]),
          (''/own/node_modules/constructor/expo-module.config.json'',
             JObj [(''platforms'', JArr [JStr ''ios''])]),
          (''/app/node_modules/ctor/package.json'',
             JObj [(''name'', JStr ''constructor''), (''version'', JStr ''1.0.0'')]),
          (''/ws/node_modules/ctor/package.json'',
             JObj [(''name'', JStr ''constructor''), (''version'', JStr ''2.0.0'')]),
          (''/own/node_modules/constructor/package.json'',
             JObj [(''name'', JStr ''constructor''), (''version'', JStr ''1.0.0'')])] \<rparr>"

definition constructor_host :: host where
  "constructor_host = posix_host constructor_fs ''/app'' [(''./platforms/ios'', ios_linking)]"

definition alias_options :: jsobject where
  "alias_options =
     [(''platform'', JStr ''ios''),
      (''searchPaths'', JArr [JStr ''/app/node_modules'', JStr ''/ws/node_modules''])]"

definition alias_merged :: ordinary_object where
  "alias_merged =
     OrdinaryObject
       [(''platform'', JStr ''ios''),
        (''searchPaths'', JArr [JStr ''/app/node_modules'', JStr ''/ws/node_modules''])]
       ObjectPrototype"

definition own_name_options :: jsobject where
  "own_name_options =
     [(''platform'', JStr ''ios''), (''searchPaths'', JArr [JStr ''/own/node_modules''])]"

text \<open>A directory tree with a manifest in the root directory, and one with no manifest.\<close>

definition root_manifest_fs :: filesystem where
  "root_manifest_fs =
     \<lparr> fs_files = [''/package.json'', ''/app/package.json''],
       fs_links = [],
       fs_json = [(''/package.json'', JObj []), (''/app/package.json'', JObj [])] \<rparr>"

definition root_manifest_host :: host where
  "root_manifest_host = posix_host root_manifest_fs ''/app'' []"


text \<open>Search results whose names differ in case, and search results with a package on which
  the platform module fails.\<close>

definition mixed_case_results :: search_results where
  "mixed_case_results =
     [(''Beta-module'', PackageRevision ''/app/node_modules/Beta-module'' ''1.0.0'' (Some [])),
      (''js-only'', PackageRevision ''/app/node_modules/js-only'' ''3.1.0'' (Some [])),
      (''alpha-module'', PackageRevision ''/app/node_modules/alpha-module'' ''2.0.0'' (Some []))]"

definition broken_results :: search_results where
  "broken_results =
     [(''alpha-module'', PackageRevision ''/app/node_modules/alpha-module'' ''2.0.0'' (Some [])),
      (''broken'', PackageRevision ''/app/node_modules/broken'' ''0.0.1'' (Some []))]"

definition ios_options :: jsobject where
  "ios_options = [(''platform'', JStr ''ios'')]"

definition alpha_descriptor :: jsval where
  "alpha_descriptor =
     JObj [(''packageName'', JStr ''alpha-module''), (''packageVersion'', JStr ''2.0.0''),
           (''podName'', JStr ''alpha-module''),
           (''podspecDir'', JStr ''/app/node_modules/alpha-module'')]"

definition beta_descriptor :: jsval where
  "beta_descriptor =
     JObj [(''packageName'', JStr ''Beta-module''), (''packageVersion'', JStr ''1.0.0''),
           (''podName'', JStr ''Beta-module''),
           (''podspecDir'', JStr ''/app/node_modules/Beta-module'')]"

section \<open>What the properties speak about\<close>

text \<open>A primary revision has a list of duplicates, which holds no path twice and not the
  primary's own path.\<close>

definition no_self_duplication :: "package_revision \<Rightarrow> bool" where
  "no_self_duplication r =
     (case duplicates r of
        None \<Rightarrow> False
      | Some ds \<Rightarrow> path r \<notin> set (map path ds) \<and> distinct (map path ds))"

text \<open>The host in which the file of one path holds something else, or cannot be loaded.\<close>

definition with_file :: "host \<Rightarrow> string \<Rightarrow> error + loaded_module \<Rightarrow> host" where
  "with_file h file content = h\<lparr>require := (require h)(file := content)\<rparr>"

text \<open>The own properties of a value as a map; of a key that is listed twice, the later
  entry counts, as it does for \<^verbatim>\<open>Object.assign\<close>.\<close>

definition properties :: "jsval \<Rightarrow> string \<rightharpoonup> jsval" where
  "properties v = map_of (rev (own_entries v))"

text \<open>Three layers of options, merged key by key: a later layer that has the key decides,
  whatever the value is.\<close>

definition three_layers ::
  "(string \<rightharpoonup> jsval) \<Rightarrow> (string \<rightharpoonup> jsval) \<Rightarrow> (string \<rightharpoonup> jsval) \<Rightarrow> string \<rightharpoonup> jsval" where
  "three_layers base platform provided k =
     (case provided k of
        Some v \<Rightarrow> Some v
      | None \<Rightarrow> (case platform k of Some v \<Rightarrow> Some v | None \<Rightarrow> base k))"

definition value_at :: "(string \<rightharpoonup> jsval) \<Rightarrow> string \<Rightarrow> jsval" where
  "value_at m k = (case m k of None \<Rightarrow> JUndefined | Some v \<Rightarrow> v)"

text \<open>The name a descriptor is sorted by, as the comparison sees it.\<close>

definition packageName_of :: "jsval \<Rightarrow> string" where
  "packageName_of descriptor = ToString (js_get descriptor ''packageName'')"

text \<open>Ascending order of the names under the host's \<^verbatim>\<open>localeCompare\<close>, and under the plain
  lexicographic comparison of the strings, character code by character code.\<close>

definition sorted_by_localeCompare :: "host \<Rightarrow> jsval list \<Rightarrow> bool" where
  "sorted_by_localeCompare h descriptors =
     sorted_wrt (\<lambda>a b. localeCompare h (packageName_of a) (packageName_of b) \<le> 0) descriptors"

definition sorted_lexicographically :: "jsval list \<Rightarrow> bool" where
  "sorted_lexicographically descriptors =
     sorted_wrt (\<lambda>a b. packageName_of a \<le> packageName_of b) descriptors"

text \<open>A comparator is consistent when the order it induces is total and transitive.\<close>

definition consistent_comparator :: "(string \<Rightarrow> string \<Rightarrow> int) \<Rightarrow> bool" where
  "consistent_comparator cmp \<longleftrightarrow>
     (\<forall>a b. cmp a b \<le> 0 \<or> cmp b a \<le> 0)
     \<and> (\<forall>a b c. cmp a b \<le> 0 \<longrightarrow> cmp b c \<le> 0 \<longrightarrow> cmp a c \<le> 0)"

section \<open>Search paths\<close>

lemma findDefaultPathsLoop_Some_imp:
  "findDefaultPathsLoop h d acc = Some r \<Longrightarrow>
   \<not> (\<exists>p. findUp h ''package.json'' d = Some p \<and> p \<noteq> []
          \<and> path_dirname h (path_dirname h p) = d)"
proof (rule findDefaultPathsLoop.raw_induct
         [where P = "\<lambda>h d acc r. \<not> (\<exists>p. findUp h ''package.json'' d = Some p \<and> p \<noteq> []
                                     \<and> path_dirname h (path_dirname h p) = d)"])
  fix loop h' dir paths r'
  assume IH: "\<And>h d acc r. loop h d acc = Some r \<Longrightarrow>
                \<not> (\<exists>p. findUp h ''package.json'' d = Some p \<and> p \<noteq> []
                       \<and> path_dirname h (path_dirname h p) = d)"
    and step: "(case findUp h' ''package.json'' dir of
                  None \<Rightarrow> Some paths
                | Some pkgJsonPath \<Rightarrow>
                    if pkgJsonPath = [] then Some paths
                    else loop h' (path_dirname h' (path_dirname h' pkgJsonPath))
                           (paths @ [path_join h' [pkgJsonPath, ''..'', ''node_modules'']]))
               = Some r'"
  show "\<not> (\<exists>p. findUp h' ''package.json'' dir = Some p \<and> p \<noteq> []
              \<and> path_dirname h' (path_dirname h' p) = dir)"
  proof
    assume "\<exists>p. findUp h' ''package.json'' dir = Some p \<and> p \<noteq> []
              \<and> path_dirname h' (path_dirname h' p) = dir"
    then obtain p where p: "findUp h' ''package.json'' dir = Some p" "p \<noteq> []"
      "path_dirname h' (path_dirname h' p) = dir" by blast
    with step have "loop h' dir (paths @ [path_join h' [p, ''..'', ''node_modules'']]) = Some r'"
      by simp
    from IH [OF this] p show False by blast
  qed
next
  assume "findDefaultPathsLoop h d acc = Some r"
  then show "findDefaultPathsLoop h d acc = Some r" .
qed

lemma findDefaultPathsLoop_never:
  assumes "findUp h ''package.json'' d = Some p" and "p \<noteq> []"
    and "path_dirname h (path_dirname h p) = d"
  shows "findDefaultPathsLoop h d acc = None"
proof (cases "findDefaultPathsLoop h d acc")
  case None
  then show ?thesis .
next
  case (Some r)
  from findDefaultPathsLoop_Some_imp [OF this] assms show ?thesis by blast
qed







lemma resolveSearchPathsAsync_default:
  "resolveSearchPathsAsync h (JArr []) dir = findDefaultPathsAsync h dir"
  "resolveSearchPathsAsync h JNull dir = findDefaultPathsAsync h dir"
  "resolveSearchPathsAsync h JUndefined dir = findDefaultPathsAsync h dir"
  by (simp_all add: resolveSearchPathsAsync_def)


section \<open>Merged options\<close>

lemma map_add_upd_front: "m(k \<mapsto> v) ++ n = m ++ ([k \<mapsto> v] ++ n)"
  by (rule ext) (simp add: map_add_def split: option.splits)

lemma map_of_fold_update:
  "map_of (fold (\<lambda>(k, v) t'. AList.update k v t') es t) = map_of t ++ map_of (rev es)"
proof (induction es arbitrary: t)
  case Nil
  then show ?case by simp
next
  case (Cons e es)
  obtain k v where e: "e = (k, v)" by (cases e)
  have "map_of (fold (\<lambda>(k, v) t'. AList.update k v t') (e # es) t)
        = map_of (AList.update k v t) ++ map_of (rev es)"
    using Cons.IH [of "AList.update k v t"] by (simp add: e)
  also have "\<dots> = map_of t ++ ([k \<mapsto> v] ++ map_of (rev es))"
    unfolding update_conv' by (rule map_add_upd_front)
  also have "\<dots> = map_of t ++ map_of (rev (e # es))"
    by (simp add: e)
  finally show ?case .
qed


lemma map_of_copy_data_properties:
  "map_of (copy_data_properties t source) = map_of t ++ properties source"
  by (simp add: copy_data_properties_def properties_def map_of_fold_update)


text \<open>A write at a key other than \<^verbatim>\<open>__proto__\<close> makes or changes an own property, and a
  source without an own property \<^verbatim>\<open>__proto__\<close> is copied by \<^verbatim>\<open>Object.assign\<close> as by a
  spread.\<close>

lemma set_property_plain:
  "k \<noteq> ''__proto__'' \<Longrightarrow>
   set_property k v obj = OrdinaryObject (AList.update k v (own_properties obj)) (prototype_of obj)"
  by (simp add: set_property_def)

lemma fold_set_property_plain:
  "''__proto__'' \<notin> fst ` set es \<Longrightarrow>
   fold (\<lambda>(k, v) obj'. set_property k v obj') es obj
   = OrdinaryObject (fold (\<lambda>(k, v) t. AList.update k v t) es (own_properties obj))
       (prototype_of obj)"
proof (induction es arbitrary: obj)
  case Nil
  then show ?case by simp
next
  case (Cons e es)
  obtain k v where e: "e = (k, v)" by (cases e)
  with Cons.prems have "k \<noteq> ''__proto__''" and "''__proto__'' \<notin> fst ` set es" by auto
  with Cons.IH [of "set_property k v obj"] show ?case
    by (simp add: e set_property_plain)
qed

lemma Object_assign3_plain:
  assumes "''__proto__'' \<notin> fst ` set (own_entries a)"
    and "''__proto__'' \<notin> fst ` set (own_entries b)"
    and "''__proto__'' \<notin> fst ` set (own_entries c)"
  shows "Object_assign empty_object [a, b, c]
         = OrdinaryObject
             (copy_data_properties (copy_data_properties (copy_data_properties [] a) b) c)
             ObjectPrototype"
  using assms
  by (simp add: Object_assign_def empty_object_def fold_set_property_plain
                copy_data_properties_def)

lemma map_of_three_copies:
  "map_of (copy_data_properties (copy_data_properties (copy_data_properties [] a) b) c)
   = three_layers (properties a) (properties b) (properties c)"
  by (rule ext)
     (simp add: map_of_copy_data_properties three_layers_def map_add_def split: option.splits)

lemma properties_None_iff: "properties v k = None \<longleftrightarrow> k \<notin> fst ` set (own_entries v)"
  by (simp add: properties_def map_of_eq_None_iff)

lemma three_layers_None_iff:
  "three_layers (properties a) (properties b) (properties c) k = None \<longleftrightarrow>
   k \<notin> fst ` set (own_entries a) \<and> k \<notin> fst ` set (own_entries b)
   \<and> k \<notin> fst ` set (own_entries c)"
  by (auto simp: three_layers_def properties_None_iff [symmetric] split: option.splits)

text \<open>At every key other than \<^verbatim>\<open>__proto__\<close> the own properties after \<^verbatim>\<open>Object.assign\<close> are
  those of the sources, the later source deciding, whatever the sources hold under
  \<^verbatim>\<open>__proto__\<close>.\<close>

lemma map_of_set_property:
  "k \<noteq> ''__proto__'' \<Longrightarrow>
   map_of (own_properties (set_property k' v obj)) k
   = (if k' = k then Some v else map_of (own_properties obj) k)"
  by (simp add: set_property_def update_conv')

lemma map_of_fold_set_property:
  "k \<noteq> ''__proto__'' \<Longrightarrow>
   map_of (own_properties (fold (\<lambda>(k, v) obj'. set_property k v obj') es obj)) k
   = (map_of (own_properties obj) ++ map_of (rev es)) k"
proof (induction es arbitrary: obj)
  case Nil
  then show ?case by simp
next
  case (Cons e es)
  obtain k' v where e: "e = (k', v)" by (cases e)
  from Cons.IH [OF Cons.prems, of "set_property k' v obj"] Cons.prems show ?case
    by (simp add: e map_of_set_property map_add_def split: option.splits)
qed

lemma map_of_Object_assign3:
  "k \<noteq> ''__proto__'' \<Longrightarrow>
   map_of (own_properties (Object_assign empty_object [a, b, c])) k
   = three_layers (properties a) (properties b) (properties c) k"
  by (simp add: Object_assign_def empty_object_def map_of_fold_set_property properties_def
                three_layers_def map_add_def split: option.splits)

text \<open>What an own property \<^verbatim>\<open>__proto__\<close> of a source does: it is not copied, its value
  becomes the prototype of the target, and the properties of that value can then be read
  from the target.\<close>

lemma Object_assign_proto_key:
  "Object_assign empty_object
     [JObj [(''__proto__'', JObj [(''exclude'', JArr [JStr ''zed''])]), (''flags'', JNull)]]
   = OrdinaryObject [(''flags'', JNull)]
       (PrototypeValue (JObj [(''exclude'', JArr [JStr ''zed''])]))"
  "get_property
     (OrdinaryObject [(''flags'', JNull)]
        (PrototypeValue (JObj [(''exclude'', JArr [JStr ''zed''])]))) ''exclude''
   = JArr [JStr ''zed'']"
  by code_simp+

lemma map_of_rev_distinct: "distinct (map fst xs) \<Longrightarrow> map_of (rev xs) = map_of xs"
  by (subst map_of_inject_set) (simp_all add: rev_map [symmetric])

lemma properties_JObj: "distinct (map fst kvs) \<Longrightarrow> properties (JObj kvs) = map_of kvs"
  by (simp add: properties_def map_of_rev_distinct)

lemma mergeLinkingOptionsAsync_ReturnsD:
  assumes "mergeLinkingOptionsAsync h providedOptions = Returns finalOptions"
  shows "\<exists>packageJson baseOptions paths.
           root_packageJson h = Inr packageJson
         \<and> baseOptions_of packageJson = Inr baseOptions
         \<and> resolveSearchPathsAsync h
               (get_property (Object_assign empty_object
                   [baseOptions, platformOptions_of providedOptions baseOptions,
                    JObj providedOptions]) ''searchPaths'') (cwd h) = Returns paths
         \<and> finalOptions = set_property ''searchPaths'' (JArr (map JStr paths))
               (Object_assign empty_object
                   [baseOptions, platformOptions_of providedOptions baseOptions,
                    JObj providedOptions])"
  using assms
  by (auto simp: mergeLinkingOptionsAsync_def Let_def split: sum.splits outcome.splits)

lemma strings_of_JStr: "map ToString (filter is_JStr (map JStr paths)) = paths"
  by (induction paths) simp_all

lemma searchPaths_of_strings:
  "get_property options ''searchPaths'' = JArr (map JStr paths) \<Longrightarrow>
   searchPaths_of options = paths"
  by (simp only: searchPaths_of_def jsval.case strings_of_JStr)

section \<open>The fold into the search results\<close>


lemma record_revision_distinct:
  "distinct (map fst rs) \<Longrightarrow> distinct (map fst (record_revision n c rs))"
  by (simp add: record_revision_def distinct_update split: option.splits)

lemma map_of_record_revision_other:
  "k \<noteq> n \<Longrightarrow> map_of (record_revision n c rs) k = map_of rs k"
  by (simp add: record_revision_def update_conv' split: option.splits)

lemma map_of_record_revision_new:
  "map_of rs n = None \<Longrightarrow> n \<notin> set Object_prototype_keys \<Longrightarrow>
   map_of (record_revision n c rs) n = Some (PackageRevision (path c) (version c) (Some []))"
  by (simp add: record_revision_def update_conv')

lemma record_revision_inherited:
  "map_of rs n = None \<Longrightarrow> n \<in> set Object_prototype_keys \<Longrightarrow> record_revision n c rs = rs"
  by (simp add: record_revision_def)

lemma map_of_record_revision_old:
  "map_of rs n = Some r \<Longrightarrow>
   \<exists>r'. map_of (record_revision n c rs) n = Some r' \<and> path r' = path r \<and> version r' = version r"
  by (simp add: record_revision_def update_conv' split: option.splits)

lemma no_self_duplication_push:
  assumes "no_self_duplication r" and "duplicates r = Some ds" and "path r \<noteq> path c"
    and "list_all (\<lambda>d. path d \<noteq> path c) ds"
  shows "no_self_duplication (PackageRevision (path r) (version r) (Some (ds @ [c])))"
  using assms by (auto simp: no_self_duplication_def list_all_iff)

lemma record_revision_no_self_duplication:
  assumes inv: "\<forall>k r. map_of rs k = Some r \<longrightarrow> no_self_duplication r"
    and look: "map_of (record_revision n c rs) k = Some r"
  shows "no_self_duplication r"
proof (cases "k = n")
  case False
  then show ?thesis using inv look by (simp add: map_of_record_revision_other)
next
  case True
  show ?thesis
  proof (cases "map_of rs n")
    case None
    show ?thesis
    proof (cases "n \<in> set Object_prototype_keys")
      case True
      with None have "record_revision n c rs = rs" by (rule record_revision_inherited)
      then show ?thesis using look inv by auto
    next
      case False
      with None have "r = PackageRevision (path c) (version c) (Some [])"
        using look \<open>k = n\<close> by (simp add: map_of_record_revision_new)
      then show ?thesis by (simp add: no_self_duplication_def)
    qed
  next
    case (Some primary)
    then have ok: "no_self_duplication primary" using inv by blast
    then obtain ds where ds: "duplicates primary = Some ds"
      by (auto simp: no_self_duplication_def split: option.splits)
    show ?thesis
    proof (cases "path primary \<noteq> path c \<and> list_all (\<lambda>d. path d \<noteq> path c) ds")
      case True
      then have "r = PackageRevision (path primary) (version primary) (Some (ds @ [c]))"
        using look Some ds \<open>k = n\<close> by (simp add: record_revision_def update_conv')
      then show ?thesis using no_self_duplication_push [OF ok ds] True by simp
    next
      case False
      then have "record_revision n c rs = rs"
        using Some ds by (auto simp: record_revision_def)
      then show ?thesis using look inv by auto
    qed
  qed
qed

lemma visit_package_cases:
  assumes "visit_package h options sp p rs = Inr rs'"
  shows "rs' = rs \<or>
         (\<exists>pp m cfg. realpath h (path_join h [sp, path_dirname h p]) = Inr pp
            \<and> require_json h (path_join h [pp, path_basename h p]) = Inr cfg
            \<and> require_manifest h (path_join h [pp, ''package.json'']) = Inr m
            \<and> skip_package options (manifest_name m) cfg = Inr False
            \<and> rs' = record_revision (manifest_name m)
                      (PackageRevision pp (manifest_version m) None) rs)"
  using assms
  by (auto simp: visit_package_def split: sum.splits bool.splits)

lemma visit_packages_invariant:
  assumes "\<And>p rs rs'. P rs \<Longrightarrow> visit_package h options sp p rs = Inr rs' \<Longrightarrow> P rs'"
    and "P rs" and "visit_packages h options sp ps rs = Inr rs'"
  shows "P rs'"
  using assms(2,3)
proof (induction ps arbitrary: rs)
  case Nil
  then show ?case by simp
next
  case (Cons p ps)
  then show ?case using assms(1) by (auto split: sum.splits)
qed

lemma scan_searchPaths_invariant:
  assumes "\<And>sp p rs rs'. P rs \<Longrightarrow> visit_package h options sp p rs = Inr rs' \<Longrightarrow> P rs'"
    and "P rs" and "scan_searchPaths h options sps rs = Inr rs'"
  shows "P rs'"
  using assms(2,3)
proof (induction sps arbitrary: rs)
  case Nil
  then show ?case by simp
next
  case (Cons sp sps)
  from Cons.prems(2) obtain kept rs1 where
    v: "visit_packages h options sp kept rs = Inr rs1"
    and s: "scan_searchPaths h options sps rs1 = Inr rs'"
    by (auto split: sum.splits)
  have "P rs1"
    using visit_packages_invariant [where P = P, OF _ Cons.prems(1) v] assms(1) by blast
  then show ?case using Cons.IH s by blast
qed

lemma scan_searchPaths_append:
  "scan_searchPaths h options (xs @ ys) rs =
     (case scan_searchPaths h options xs rs of
        Inl e \<Rightarrow> Inl e
      | Inr rs' \<Rightarrow> scan_searchPaths h options ys rs')"
  by (induction xs arbitrary: rs) (auto split: sum.splits)

lemma findModulesAsync_ReturnsD:
  assumes "findModulesAsync h providedOptions = Returns results"
  shows "\<exists>options. mergeLinkingOptionsAsync h providedOptions = Returns options
           \<and> scan_searchPaths h options (searchPaths_of options) [] = Inr results"
  using assms by (auto simp: findModulesAsync_def split: outcome.splits sum.splits)

lemma visit_package_wellformed:
  assumes "distinct (map fst rs) \<and> (\<forall>k r. map_of rs k = Some r \<longrightarrow> no_self_duplication r)"
    and "visit_package h options sp p rs = Inr rs'"
  shows "distinct (map fst rs') \<and> (\<forall>k r. map_of rs' k = Some r \<longrightarrow> no_self_duplication r)"
  using visit_package_cases [OF assms(2)] assms(1)
  by (auto simp: record_revision_distinct dest: record_revision_no_self_duplication [rotated])

lemma findModulesAsync_wellformed:
  assumes "findModulesAsync h providedOptions = Returns results"
  shows "distinct (map fst results)
         \<and> (\<forall>k r. map_of results k = Some r \<longrightarrow> no_self_duplication r)"
proof -
  from findModulesAsync_ReturnsD [OF assms] obtain options where
    scan: "scan_searchPaths h options (searchPaths_of options) [] = Inr results" by blast
  show ?thesis
    by (rule scan_searchPaths_invariant
          [where P = "\<lambda>rs. distinct (map fst rs)
                         \<and> (\<forall>k r. map_of rs k = Some r \<longrightarrow> no_self_duplication r)",
           OF _ _ scan])
       (auto dest: visit_package_wellformed [rotated])
qed

lemma record_revision_known_path:
  assumes "map_of rs n = Some primary" and "duplicates primary = Some ds"
    and "path c = path primary \<or> path c \<in> set (map path ds)"
  shows "record_revision n c rs = rs"
  using assms by (auto simp: record_revision_def list_all_iff)

lemma two_paths_run: "findModulesAsync demo_host two_paths_options = Returns two_paths_results"
  by code_simp


text \<open>
  C4. In the search results of \<^verbatim>\<open>findModulesAsync\<close>, the duplicates of a name never
  contain the path of its primary revision and never contain a path twice; finding again a
  path that is already recorded, as the primary or as a duplicate, changes nothing.
\<close>

theorem findModulesAsync_no_self_duplication:
  assumes "findModulesAsync h providedOptions = Returns results"
    and "(name, primary) \<in> set results"
  shows "\<exists>ds. duplicates primary = Some ds
           \<and> path primary \<notin> set (map path ds)
           \<and> distinct (map path ds)
           \<and> (\<forall>again. path again = path primary \<or> path again \<in> set (map path ds)
                 \<longrightarrow> record_revision name again results = results)"
proof -
  from findModulesAsync_wellformed [OF assms(1)] have
    keys: "distinct (map fst results)"
    and inv: "\<forall>k r. map_of results k = Some r \<longrightarrow> no_self_duplication r" by auto
  from keys assms(2) have look: "map_of results name = Some primary" by simp
  with inv have "no_self_duplication primary" by blast
  then obtain ds where ds: "duplicates primary = Some ds"
    and fresh: "path primary \<notin> set (map path ds)" "distinct (map path ds)"
    by (auto simp: no_self_duplication_def split: option.splits)
  have "record_revision name again results = results"
    if "path again = path primary \<or> path again \<in> set (map path ds)" for again
    using record_revision_known_path [OF look ds that] .
  with ds fresh show ?thesis by blast
qed

theorem findModulesAsync_no_self_duplication_witness:
  "findModulesAsync demo_host two_paths_options = Returns two_paths_results
   \<and> (''bar'',
        PackageRevision ''/app/node_modules/bar'' ''1.0.0''
          (Some [PackageRevision ''/ws/node_modules/bar'' ''0.9.0'' None])) \<in> set two_paths_results
   \<and> (\<exists>ds. duplicates (PackageRevision ''/app/node_modules/bar'' ''1.0.0''
                (Some [PackageRevision ''/ws/node_modules/bar'' ''0.9.0'' None])) = Some ds
          \<and> ''/app/node_modules/bar'' \<notin> set (map path ds)
          \<and> distinct (map path ds))"
proof -
  have member: "(''bar'',
        PackageRevision ''/app/node_modules/bar'' ''1.0.0''
          (Some [PackageRevision ''/ws/node_modules/bar'' ''0.9.0'' None])) \<in> set two_paths_results"
    by (simp add: two_paths_results_def)
  from findModulesAsync_no_self_duplication [OF two_paths_run member] two_paths_run member
  show ?thesis by auto
qed
section \<open>A manifest in the root directory\<close>

lemma root_manifest_found:
  "findUp root_manifest_host ''package.json'' ''/app'' = Some ''/app/package.json''"
  "findUp root_manifest_host ''package.json'' ''/'' = Some ''/package.json''"
  "path_dirname root_manifest_host (path_dirname root_manifest_host ''/app/package.json'') = ''/''"
  "path_dirname root_manifest_host (path_dirname root_manifest_host ''/package.json'') = ''/''"
  by code_simp+

text \<open>
  C8. For a non-empty list of explicit paths \<^verbatim>\<open>resolveSearchPathsAsync\<close> returns every
  entry resolved against the working directory, in the given order; for an empty list or
  \<^verbatim>\<open>null\<close> it returns the default list of \<^verbatim>\<open>node_modules\<close> directories of the ancestors,
  which is empty when no ancestor has a manifest. The code does not return in one case: with
  a manifest in the root directory the walk up the ancestors finds that manifest again in
  every round, because the directory above the root is the root. Here the project is in
  \<^verbatim>\<open>/app\<close> and both \<^verbatim>\<open>/app/package.json\<close> and \<^verbatim>\<open>/package.json\<close> exist.
\<close>

theorem resolveSearchPathsAsync_root_manifest:
  "resolveSearchPathsAsync root_manifest_host JNull ''/app'' = Diverges
   \<and> resolveSearchPathsAsync root_manifest_host (JArr []) ''/app'' = Diverges"
proof -
  have "findDefaultPathsLoop root_manifest_host ''/'' acc = None" for acc
    by (rule findDefaultPathsLoop_never [where p = "''/package.json''"])
       (simp_all add: root_manifest_found)
  then have "findDefaultPathsLoop root_manifest_host ''/app'' [] = None"
    by (subst findDefaultPathsLoop.simps) (simp add: root_manifest_found)
  then show ?thesis
    by (simp add: resolveSearchPathsAsync_default findDefaultPathsAsync_def)
qed

section \<open>The three layers of options\<close>


lemma get_property_plain:
  "get_property (OrdinaryObject kvs ObjectPrototype) k = value_at (map_of kvs) k"
  by (simp add: get_property_def value_at_def split: option.splits)






text \<open>Under the same conditions the merge ends as the resolver does: it throws what the
  resolver throws, and does not return when the resolver does not.\<close>

lemma mergeLinkingOptionsAsync_resolver_fails:
  assumes root: "root_packageJson h = Inr packageJson"
    and base: "baseOptions_of packageJson = Inr baseOptions"
    and merged: "merged = three_layers (properties baseOptions)
                   (properties (platformOptions_of providedOptions baseOptions))
                   (properties (JObj providedOptions))"
    and plain: "merged ''__proto__'' = None"
  shows "resolveSearchPathsAsync h (value_at merged ''searchPaths'') (cwd h) = Diverges \<Longrightarrow>
         mergeLinkingOptionsAsync h providedOptions = Diverges"
    and "resolveSearchPathsAsync h (value_at merged ''searchPaths'') (cwd h) = Throws e \<Longrightarrow>
         mergeLinkingOptionsAsync h providedOptions = Throws e"
proof -
  let ?platformOptions = "platformOptions_of providedOptions baseOptions"
  let ?copied = "copy_data_properties
                   (copy_data_properties (copy_data_properties [] baseOptions) ?platformOptions)
                   (JObj providedOptions)"
  from plain have keys: "''__proto__'' \<notin> fst ` set (own_entries baseOptions)"
    "''__proto__'' \<notin> fst ` set (own_entries ?platformOptions)"
    "''__proto__'' \<notin> fst ` set (own_entries (JObj providedOptions))"
    unfolding merged three_layers_None_iff by blast+
  have assigned: "Object_assign empty_object [baseOptions, ?platformOptions, JObj providedOptions]
                  = OrdinaryObject ?copied ObjectPrototype"
    by (rule Object_assign3_plain [OF keys])
  have copied: "map_of ?copied = merged"
    unfolding merged by (rule map_of_three_copies)
  have read: "get_property (OrdinaryObject ?copied ObjectPrototype) ''searchPaths''
              = value_at merged ''searchPaths''"
    by (simp only: get_property_plain copied)
  show "mergeLinkingOptionsAsync h providedOptions = Diverges"
    if "resolveSearchPathsAsync h (value_at merged ''searchPaths'') (cwd h) = Diverges"
    using that by (simp add: mergeLinkingOptionsAsync_def root base Let_def assigned read)
  show "mergeLinkingOptionsAsync h providedOptions = Throws e"
    if "resolveSearchPathsAsync h (value_at merged ''searchPaths'') (cwd h) = Throws e"
    using that by (simp add: mergeLinkingOptionsAsync_def root base Let_def assigned read)
qed

text \<open>From the result to the inputs: whatever the layers hold, the returned options come
  from a manifest that was read, have at every key other than \<^verbatim>\<open>__proto__\<close> the own
  property that the three layers give, and have under \<^verbatim>\<open>searchPaths\<close> what the resolver
  made of the \<^verbatim>\<open>searchPaths\<close> read from the merged object.\<close>

lemma mergeLinkingOptionsAsync_layers:
  assumes "mergeLinkingOptionsAsync h providedOptions = Returns finalOptions"
  shows "\<exists>packageJson baseOptions paths.
          root_packageJson h = Inr packageJson
        \<and> baseOptions_of packageJson = Inr baseOptions
        \<and> resolveSearchPathsAsync h
              (get_property
                 (Object_assign empty_object
                    [baseOptions, platformOptions_of providedOptions baseOptions,
                     JObj providedOptions]) ''searchPaths'')
              (cwd h) = Returns paths
        \<and> get_property finalOptions ''searchPaths'' = JArr (map JStr paths)
        \<and> (\<forall>k. k \<noteq> ''__proto__'' \<longrightarrow>
              map_of (own_properties finalOptions) k =
                ((three_layers (properties baseOptions)
                    (properties (platformOptions_of providedOptions baseOptions))
                    (properties (JObj providedOptions)))
                 (''searchPaths'' \<mapsto> JArr (map JStr paths))) k)"
proof -
  from mergeLinkingOptionsAsync_ReturnsD [OF assms] obtain packageJson baseOptions paths where
    *: "root_packageJson h = Inr packageJson" "baseOptions_of packageJson = Inr baseOptions"
    and sp: "resolveSearchPathsAsync h
               (get_property (Object_assign empty_object
                   [baseOptions, platformOptions_of providedOptions baseOptions,
                    JObj providedOptions]) ''searchPaths'') (cwd h) = Returns paths"
    and fin: "finalOptions = set_property ''searchPaths'' (JArr (map JStr paths))
               (Object_assign empty_object
                   [baseOptions, platformOptions_of providedOptions baseOptions,
                    JObj providedOptions])"
    by blast
  have own: "map_of (own_properties finalOptions) k =
                ((three_layers (properties baseOptions)
                    (properties (platformOptions_of providedOptions baseOptions))
                    (properties (JObj providedOptions)))
                 (''searchPaths'' \<mapsto> JArr (map JStr paths))) k"
    if "k \<noteq> ''__proto__''" for k
    unfolding fin by (simp add: map_of_set_property [OF that] map_of_Object_assign3 [OF that])
  have "map_of (own_properties finalOptions) ''searchPaths'' = Some (JArr (map JStr paths))"
    using own [of "''searchPaths''"] by simp
  then have "get_property finalOptions ''searchPaths'' = JArr (map JStr paths)"
    by (simp add: get_property_def)
  with * sp own show ?thesis by blast
qed

lemma searchPaths_of_merged:
  assumes "mergeLinkingOptionsAsync h providedOptions = Returns options"
  shows "get_property options ''searchPaths'' = JArr (map JStr (searchPaths_of options))"
proof -
  from mergeLinkingOptionsAsync_layers [OF assms] obtain paths where
    "get_property options ''searchPaths'' = JArr (map JStr paths)" by auto
  with searchPaths_of_strings [OF this] show ?thesis by simp
qed



section \<open>Exclusion, platforms and the primary revision\<close>








text \<open>
  C10. A package whose config is an object without a \<^verbatim>\<open>platforms\<close> field is passed over by
  \<^verbatim>\<open>findModulesAsync\<close> without error, the results unchanged, exactly as a package whose
  \<^verbatim>\<open>platforms\<close> list lacks the requested platform.
\<close>

theorem visit_package_no_platforms:
  assumes "realpath h (path_join h [searchPath, path_dirname h packageConfigPath]) = Inr packagePath"
    and "require_json h (path_join h [packagePath, path_basename h packageConfigPath])
         = Inr (JObj config_fields)"
    and "map_of config_fields ''platforms'' = None"
    and "require_manifest h (path_join h [packagePath, ''package.json'']) = Inr m"
    and "optional_includes (get_property options ''exclude'') (JStr (manifest_name m))
         = Inr excluded"
  shows "visit_package h options searchPath packageConfigPath results = Inr results
         \<and> (\<forall>others.
               \<not> list_ex (\<lambda>x. same_value_zero x (get_property options ''platform'')) others \<longrightarrow>
               skip_package options (manifest_name m) (JObj config_fields)
               = skip_package options (manifest_name m) (JObj [(''platforms'', JArr others)]))"
proof -
  have skip: "skip_package options (manifest_name m) (JObj config_fields) = Inr True"
    using assms(3,5) by (cases excluded) (simp_all add: skip_package_def)
  have "skip_package options (manifest_name m) (JObj [(''platforms'', JArr others)]) = Inr True"
    if "\<not> list_ex (\<lambda>x. same_value_zero x (get_property options ''platform'')) others"
    for others
    using assms(5) that by (cases excluded) (simp_all add: skip_package_def)
  moreover have "visit_package h options searchPath packageConfigPath results = Inr results"
    using assms(1,2,4) skip by (simp add: visit_package_def)
  ultimately show ?thesis using skip by simp
qed

theorem visit_package_no_platforms_witness:
  "require_json demo_host ''/app/node_modules/nop/unimodule.json''
     = Inr (JObj [(''name'', JStr ''nop'')])
   \<and> map_of [(''name'', JStr ''nop'')] ''platforms'' = None
   \<and> visit_package demo_host two_paths_merged ''/app/node_modules'' ''nop/unimodule.json''
         two_paths_results = Inr two_paths_results
   \<and> skip_package two_paths_merged ''nop'' (JObj [(''name'', JStr ''nop'')])
       = skip_package two_paths_merged ''nop'' (JObj [(''platforms'', JArr [JStr ''android''])])"
proof -
  have reads:
    "realpath demo_host
       (path_join demo_host [''/app/node_modules'', path_dirname demo_host ''nop/unimodule.json''])
     = Inr ''/app/node_modules/nop''"
    "require_json demo_host
       (path_join demo_host [''/app/node_modules/nop'',
                             path_basename demo_host ''nop/unimodule.json''])
     = Inr (JObj [(''name'', JStr ''nop'')])"
    by code_simp+
  have field: "map_of [(''name'', JStr ''nop'')] ''platforms'' = None" by simp
  have mani:
    "require_manifest demo_host (path_join demo_host [''/app/node_modules/nop'', ''package.json''])
     = Inr \<lparr>manifest_name = ''nop'', manifest_version = ''1.0.0''\<rparr>"
    by code_simp
  have excl:
    "optional_includes (get_property two_paths_merged ''exclude'')
       (JStr (manifest_name \<lparr>manifest_name = ''nop'', manifest_version = ''1.0.0''\<rparr>)) = Inr False"
    by code_simp
  have other:
    "\<not> list_ex (\<lambda>x. same_value_zero x (get_property two_paths_merged ''platform''))
         [JStr ''android'']"
    by code_simp
  have on_disk: "require_json demo_host ''/app/node_modules/nop/unimodule.json''
              = Inr (JObj [(''name'', JStr ''nop'')])"
    by code_simp
  note skipped = visit_package_no_platforms [OF reads field mani excl]
  from skipped [THEN conjunct1] skipped [THEN conjunct2, rule_format, OF other] on_disk field
  show ?thesis by simp
qed

section \<open>The primary revision\<close>

text \<open>For a name that is not a member of \<^verbatim>\<open>Object.prototype\<close> the first revision found is
  the primary one, and the primary revision of a name keeps its path and version through
  everything that is found later.\<close>

lemma visit_package_keeps_primary:
  assumes "map_of rs n = Some r" and "visit_package h options sp p rs = Inr rs'"
  shows "\<exists>r'. map_of rs' n = Some r' \<and> path r' = path r \<and> version r' = version r"
proof -
  from visit_package_cases [OF assms(2)] show ?thesis
  proof
    assume "rs' = rs"
    with assms(1) show ?thesis by simp
  next
    assume "\<exists>pp m cfg. realpath h (path_join h [sp, path_dirname h p]) = Inr pp
            \<and> require_json h (path_join h [pp, path_basename h p]) = Inr cfg
            \<and> require_manifest h (path_join h [pp, ''package.json'']) = Inr m
            \<and> skip_package options (manifest_name m) cfg = Inr False
            \<and> rs' = record_revision (manifest_name m)
                      (PackageRevision pp (manifest_version m) None) rs"
    then obtain pp and m :: manifest where
      rs': "rs' = record_revision (manifest_name m)
                      (PackageRevision pp (manifest_version m) None) rs"
      by blast
    show ?thesis
    proof (cases "manifest_name m = n")
      case True
      with rs' map_of_record_revision_old [OF assms(1)] show ?thesis by blast
    next
      case False
      with rs' assms(1) show ?thesis by (simp add: map_of_record_revision_other)
    qed
  qed
qed

lemma scan_searchPaths_keeps_primary:
  assumes "scan_searchPaths h options later found = Inr results"
    and "map_of found name = Some primary"
  shows "\<exists>r. map_of results name = Some r \<and> path r = path primary
              \<and> version r = version primary"
proof (rule scan_searchPaths_invariant
         [where P = "\<lambda>rs. \<exists>r. map_of rs name = Some r \<and> path r = path primary
                              \<and> version r = version primary", OF _ _ assms(1)])
  show "\<exists>r. map_of found name = Some r \<and> path r = path primary
             \<and> version r = version primary"
    using assms(2) by simp
next
  fix sp p rs rs'
  assume "\<exists>r. map_of rs name = Some r \<and> path r = path primary \<and> version r = version primary"
    and "visit_package h options sp p rs = Inr rs'"
  then show "\<exists>r. map_of rs' name = Some r \<and> path r = path primary
                  \<and> version r = version primary"
    using visit_package_keeps_primary by fastforce
qed

lemma findModulesAsync_keeps_primary:
  assumes "findModulesAsync h providedOptions = Returns results"
    and "mergeLinkingOptionsAsync h providedOptions = Returns options"
    and "searchPaths_of options = earlier @ later"
  shows "\<exists>found.
           scan_searchPaths h options earlier [] = Inr found
         \<and> (\<forall>name primary.
               map_of found name = Some primary \<longrightarrow>
               (\<exists>r. map_of results name = Some r
                    \<and> path r = path primary \<and> version r = version primary))"
proof -
  from findModulesAsync_ReturnsD [OF assms(1)] assms(2,3) have
    "scan_searchPaths h options (earlier @ later) [] = Inr results" by simp
  then obtain found where
    first: "scan_searchPaths h options earlier [] = Inr found"
    and rest: "scan_searchPaths h options later found = Inr results"
    by (auto simp: scan_searchPaths_append split: sum.splits)
  from first scan_searchPaths_keeps_primary [OF rest] show ?thesis by blast
qed

text \<open>
  C3. The search paths are scanned in their order and the revision of a name that is found
  first is to be its primary revision, as the comment at the assignment says (``The revision
  that was found first will be the main one''). The code does not do so for a package
  whose name is that of a member of \<^verbatim>\<open>Object.prototype\<close>, such as \<^verbatim>\<open>constructor\<close>: the
  results are a plain object, so \<^verbatim>\<open>results[name]\<close> is already truthy and no primary
  revision is recorded. Here two search paths hold the package \<^verbatim>\<open>constructor\<close> at different
  places, under the directory \<^verbatim>\<open>ctor\<close>; it lists the platform and is not excluded, and the
  results are empty. In a directory of its own name the choice of the config file throws
  before the package is read.
\<close>

theorem findModulesAsync_constructor:
  "mergeLinkingOptionsAsync constructor_host alias_options = Returns alias_merged
   \<and> searchPaths_of alias_merged = [''/app/node_modules'', ''/ws/node_modules'']
   \<and> glob constructor_host glob_patterns ''/app/node_modules''
       = Inr [''ctor/expo-module.config.json'']
   \<and> glob constructor_host glob_patterns ''/ws/node_modules''
       = Inr [''ctor/expo-module.config.json'']
   \<and> realpath constructor_host ''/app/node_modules/ctor'' = Inr ''/app/node_modules/ctor''
   \<and> realpath constructor_host ''/ws/node_modules/ctor'' = Inr ''/ws/node_modules/ctor''
   \<and> require_manifest constructor_host ''/app/node_modules/ctor/package.json''
       = Inr \<lparr>manifest_name = ''constructor'', manifest_version = ''1.0.0''\<rparr>
   \<and> require_manifest constructor_host ''/ws/node_modules/ctor/package.json''
       = Inr \<lparr>manifest_name = ''constructor'', manifest_version = ''2.0.0''\<rparr>
   \<and> skip_package alias_merged ''constructor'' (JObj [(''platforms'', JArr [JStr ''ios''])])
       = Inr False
   \<and> record_revision ''constructor'' (PackageRevision ''/app/node_modules/ctor'' ''1.0.0'' None) []
       = []
   \<and> findModulesAsync constructor_host alias_options = Returns []
   \<and> findModulesAsync constructor_host own_name_options
       = Throws (TypeError ''The path argument must be of type string'')"
  by (intro conjI; code_simp)

section \<open>Choice of the config file\<close>




lemma keep_config_cases:
  assumes "keep_config h q acc = Inr acc'"
  shows "acc' = AList.update (path_dirname h q) q acc
         \<or> (acc' = acc
            \<and> (\<exists>kept. map_of acc (path_dirname h q) = Some kept \<and> kept \<noteq> []
                  \<and> \<not> configPriority h q > configPriority h kept))"
  using assms by (auto simp: keep_config_def Let_def split: option.splits if_splits)








text \<open>A directory named like a member of \<^verbatim>\<open>Object.prototype\<close> ends the choice with a
  \<^verbatim>\<open>TypeError\<close>, before any file of a package is read.\<close>

lemma keep_config_keys:
  assumes "keep_config h q acc = Inr acc'"
  shows "fst ` set acc' \<subseteq> insert (path_dirname h q) (fst ` set acc)"
  using keep_config_cases [OF assms]
proof
  assume "acc' = AList.update (path_dirname h q) q acc"
  then have "fst ` set acc' = {path_dirname h q} \<union> fst ` set acc"
    by (simp only: dom_update)
  then show ?thesis by simp
next
  assume "acc' = acc
          \<and> (\<exists>kept. map_of acc (path_dirname h q) = Some kept \<and> kept \<noteq> []
                \<and> \<not> configPriority h q > configPriority h kept)"
  then have "fst ` set acc' = fst ` set acc" by simp
  then show ?thesis by (simp only: subset_insertI)
qed

lemma keep_config_own_keys:
  assumes "keep_config h q acc = Inr acc'"
    and "\<forall>k \<in> fst ` set acc. k \<notin> set Object_prototype_keys"
  shows "\<forall>k \<in> fst ` set acc'. k \<notin> set Object_prototype_keys"
proof
  fix k
  assume "k \<in> fst ` set acc'"
  with keep_config_keys [OF assms(1)]
  have "k \<in> insert (path_dirname h q) (fst ` set acc)" by (rule subsetD)
  then have "k = path_dirname h q \<or> k \<in> fst ` set acc" by simp
  then show "k \<notin> set Object_prototype_keys"
  proof
    assume "k \<in> fst ` set acc"
    with assms(2) show ?thesis by (rule bspec)
  next
    assume k: "k = path_dirname h q"
    show ?thesis
    proof (cases "map_of acc (path_dirname h q)")
      case None
      with assms(1) have "path_dirname h q \<notin> set Object_prototype_keys"
        by (auto simp: keep_config_def Let_def split: if_splits)
      with k show ?thesis by simp
    next
      case (Some kept)
      then have "path_dirname h q \<in> fst ` set acc"
        by (metis domI dom_map_of_conv_image_fst)
      with assms(2) have "path_dirname h q \<notin> set Object_prototype_keys" by (rule bspec)
      with k show ?thesis by simp
    qed
  qed
qed

lemma keep_config_throws:
  "keep_config h q acc = Inl e \<Longrightarrow> e = TypeError ''The path argument must be of type string''"
  by (auto simp: keep_config_def Let_def split: option.splits if_splits)

lemma reduce_configs_inherited_name:
  assumes "p \<in> set paths" and "path_dirname h p \<in> set Object_prototype_keys"
    and "\<forall>k \<in> fst ` set acc. k \<notin> set Object_prototype_keys"
  shows "reduce_configs h paths acc = Inl (TypeError ''The path argument must be of type string'')"
  using assms(1,3)
proof (induction paths arbitrary: acc)
  case Nil
  then show ?case by simp
next
  case (Cons q paths)
  show ?case
  proof (cases "keep_config h q acc")
    case (Inl e)
    with keep_config_throws [OF Inl] show ?thesis by simp
  next
    case (Inr acc1)
    have "q \<noteq> p"
    proof
      assume "q = p"
      have "path_dirname h p \<notin> fst ` set acc"
        using Cons.prems(2) assms(2) by blast
      then have "map_of acc (path_dirname h p) = None"
        by (simp add: map_of_eq_None_iff)
      with assms(2) have "keep_config h p acc
                          = Inl (TypeError ''The path argument must be of type string'')"
        by (simp add: keep_config_def Let_def)
      with Inr \<open>q = p\<close> show False by simp
    qed
    with Cons.prems(1) have "p \<in> set paths" by simp
    from Cons.IH [OF this keep_config_own_keys [OF Inr Cons.prems(2)]] Inr show ?thesis
      by simp
  qed
qed

lemma uniqueConfigPaths_inherited_name:
  assumes "p \<in> set paths" and "path_dirname h p \<in> set Object_prototype_keys"
  shows "uniqueConfigPaths h paths = Inl (TypeError ''The path argument must be of type string'')"
proof -
  have "\<forall>k \<in> fst ` set ([] :: (string \<times> string) list). k \<notin> set Object_prototype_keys"
    by simp
  from reduce_configs_inherited_name [OF assms this] show ?thesis
    by (simp add: uniqueConfigPaths_def)
qed


text \<open>What a file holds has no part in the choice, and a file that is neither the config
  nor the \<^verbatim>\<open>package.json\<close> of a package has no part in what the loop does with it.\<close>

lemma with_file_paths [simp]:
  "path_dirname (with_file h file content) = path_dirname h"
  "path_basename (with_file h file content) = path_basename h"
  "path_join (with_file h file content) = path_join h"
  "realpath (with_file h file content) = realpath h"
  by (simp_all add: with_file_def)










section \<open>Generation for an unsupported platform\<close>

text \<open>
  C7. When no generator exists for the platform (there is no module for it, or the module
  has no \<^verbatim>\<open>generatePackageListAsync\<close>), \<^verbatim>\<open>generatePackageListAsync\<close> returns normally,
  writes no file, and reports the failure with one line on \<^verbatim>\<open>console.error\<close>.
\<close>

theorem generatePackageListAsync_unsupported:
  assumes "(\<exists>e. require_platform h
                  (''./platforms/'' @ ToString (js_get (JObj options) ''platform'')) = Inl e)
           \<or> (\<exists>platformLinking.
                 require_platform h
                   (''./platforms/'' @ ToString (js_get (JObj options) ''platform''))
                   = Inr platformLinking
                 \<and> platform_generatePackageListAsync platformLinking = None)"
  shows "fst (generatePackageListAsync h modules options w) = Returns ()
         \<and> artifacts (snd (generatePackageListAsync h modules options w)) = artifacts w
         \<and> console_error (snd (generatePackageListAsync h modules options w)) =
             console_error w @
               [chalk_red h (''Generating package list is not available for platform: ''
                               @ ToString (js_get (JObj options) ''platform''))]"
  using assms
  by (auto simp: generatePackageListAsync_def report_unavailable_def simp del: js_get.simps)

theorem generatePackageListAsync_unsupported_witness:
  "require_platform demo_host
     (''./platforms/'' @ ToString (js_get (JObj [(''platform'', JStr ''windows'')]) ''platform''))
     = Inl (ModuleNotFound ''./platforms/windows'')
   \<and> fst (generatePackageListAsync demo_host [alpha_descriptor] [(''platform'', JStr ''windows'')]
            \<lparr>artifacts = [], console_error = []\<rparr>) = Returns ()
   \<and> artifacts (snd (generatePackageListAsync demo_host [alpha_descriptor]
                        [(''platform'', JStr ''windows'')]
                        \<lparr>artifacts = [], console_error = []\<rparr>)) = []
   \<and> require_platform demo_host
       (''./platforms/'' @ ToString (js_get (JObj ios_options) ''platform'')) = Inr ios_linking
   \<and> platform_generatePackageListAsync ios_linking = None
   \<and> fst (generatePackageListAsync demo_host [alpha_descriptor] ios_options
            \<lparr>artifacts = [], console_error = []\<rparr>) = Returns ()
   \<and> artifacts (snd (generatePackageListAsync demo_host [alpha_descriptor] ios_options
                        \<lparr>artifacts = [], console_error = []\<rparr>)) = []"
proof -
  have missing: "require_platform demo_host
     (''./platforms/'' @ ToString (js_get (JObj [(''platform'', JStr ''windows'')]) ''platform''))
     = Inl (ModuleNotFound ''./platforms/windows'')"
    by (simp add: demo_host_def posix_host_def)
  have ios: "require_platform demo_host
       (''./platforms/'' @ ToString (js_get (JObj ios_options) ''platform'')) = Inr ios_linking"
    by (simp add: demo_host_def posix_host_def ios_options_def)
  have none: "platform_generatePackageListAsync ios_linking = None"
    by (simp add: ios_linking_def)
  have no_module: "(\<exists>e. require_platform demo_host
       (''./platforms/'' @ ToString (js_get (JObj [(''platform'', JStr ''windows'')]) ''platform''))
       = Inl e)
     \<or> (\<exists>platformLinking.
           require_platform demo_host
             (''./platforms/''
                @ ToString (js_get (JObj [(''platform'', JStr ''windows'')]) ''platform''))
             = Inr platformLinking
           \<and> platform_generatePackageListAsync platformLinking = None)"
    using missing by blast
  have no_function: "(\<exists>e. require_platform demo_host
       (''./platforms/'' @ ToString (js_get (JObj ios_options) ''platform'')) = Inl e)
     \<or> (\<exists>platformLinking.
           require_platform demo_host
             (''./platforms/'' @ ToString (js_get (JObj ios_options) ''platform''))
             = Inr platformLinking
           \<and> platform_generatePackageListAsync platformLinking = None)"
    using ios none by blast
  from generatePackageListAsync_unsupported
         [OF no_module, of "[alpha_descriptor]" "\<lparr>artifacts = [], console_error = []\<rparr>"]
       generatePackageListAsync_unsupported
         [OF no_function, of "[alpha_descriptor]" "\<lparr>artifacts = [], console_error = []\<rparr>"]
       missing ios none
  show ?thesis by simp
qed

section \<open>Failure of a call of the platform module\<close>

lemma settle_simps:
  "settle promises c (Rejected e) = Rejected e"
  "\<not> c < length promises \<Longrightarrow> settle promises c (Pending slots) = Pending slots"
  "c < length promises \<Longrightarrow> promises ! c = Inl e \<Longrightarrow>
     settle promises c (Pending slots) = Rejected e"
  "c < length promises \<Longrightarrow> promises ! c = Inr v \<Longrightarrow>
     settle promises c (Pending slots) = Pending (slots[c := Some v])"
  by (simp_all add: settle_def)

lemma fold_settle_Rejected: "fold (settle promises) completion (Rejected e) = Rejected e"
  by (induction completion) (simp_all add: settle_simps)

lemma fold_settle_rejects:
  assumes "i \<in> set completion" and "i < length promises" and "promises ! i = Inl e"
  shows "\<exists>e' j. fold (settle promises) completion (Pending slots) = Rejected e'
           \<and> j < length promises \<and> promises ! j = Inl e'"
  using assms(1)
proof (induction completion arbitrary: slots)
  case Nil
  then show ?case by simp
next
  case (Cons c completion)
  show ?case
  proof (cases "c < length promises")
    case False
    with assms(2) have "c \<noteq> i" by auto
    with Cons.prems have "i \<in> set completion" by simp
    from Cons.IH [OF this, of slots] False show ?thesis by (simp add: settle_simps)
  next
    case True
    show ?thesis
    proof (cases "promises ! c")
      case (Inl e')
      with True have "fold (settle promises) (c # completion) (Pending slots) = Rejected e'"
        by (simp add: settle_simps fold_settle_Rejected)
      with True Inl show ?thesis by blast
    next
      case (Inr v)
      with assms(3) have "c \<noteq> i" by auto
      with Cons.prems have "i \<in> set completion" by simp
      from Cons.IH [OF this, of "slots[c := Some v]"] True Inr show ?thesis
        by (simp add: settle_simps)
    qed
  qed
qed

lemma Promise_all_rejects:
  assumes "i \<in> set completion" and "i < length promises" and "promises ! i = Inl e"
  shows "\<exists>e' j. Promise_all completion promises = Throws e'
           \<and> j < length promises \<and> promises ! j = Inl e'"
proof -
  from fold_settle_rejects [OF assms, of "replicate (length promises) None"]
  obtain e' j where
    "fold (settle promises) completion (Pending (replicate (length promises) None)) = Rejected e'"
    and "j < length promises" and "promises ! j = Inl e'" by blast
  then show ?thesis by (auto simp: Promise_all_def)
qed

lemma fold_settle_Pending:
  assumes "fold (settle promises) completion (Pending slots) = Pending slots'"
    and "length slots = length promises"
    and "\<forall>k < length promises. \<forall>v. slots ! k = Some v \<longrightarrow> promises ! k = Inr v"
  shows "length slots' = length promises
         \<and> (\<forall>k < length promises. \<forall>v. slots' ! k = Some v \<longrightarrow> promises ! k = Inr v)"
  using assms
proof (induction completion arbitrary: slots)
  case Nil
  then show ?case by simp
next
  case (Cons c completion)
  show ?case
  proof (cases "c < length promises")
    case False
    with Cons.prems(1) have "fold (settle promises) completion (Pending slots) = Pending slots'"
      by (simp add: settle_simps)
    from Cons.IH [OF this Cons.prems(2,3)] show ?thesis .
  next
    case True
    show ?thesis
    proof (cases "promises ! c")
      case (Inl e)
      with True Cons.prems(1) show ?thesis
        by (simp add: settle_simps fold_settle_Rejected)
    next
      case (Inr v)
      with True Cons.prems(1) have
        step: "fold (settle promises) completion (Pending (slots[c := Some v])) = Pending slots'"
        by (simp add: settle_simps)
      have len: "length (slots[c := Some v]) = length promises"
        using Cons.prems(2) by simp
      have "\<forall>k < length promises. \<forall>w. slots[c := Some v] ! k = Some w \<longrightarrow> promises ! k = Inr w"
        using Cons.prems(2,3) Inr True by (auto simp: nth_list_update)
      from Cons.IH [OF step len this] show ?thesis .
    qed
  qed
qed

lemma Promise_all_Returns:
  assumes "Promise_all completion promises = Returns values"
  shows "promises = map Inr values"
proof -
  from assms obtain slots where
    settled: "fold (settle promises) completion (Pending (replicate (length promises) None))
           = Pending slots"
    and full: "list_all (\<lambda>slot. slot \<noteq> None) slots" and vals: "values = map the slots"
    by (auto simp: Promise_all_def split: settling.splits if_splits)
  from fold_settle_Pending [OF settled] have
    len: "length slots = length promises"
    and kept: "\<forall>k < length promises. \<forall>v. slots ! k = Some v \<longrightarrow> promises ! k = Inr v"
    by simp_all
  show ?thesis
  proof (rule nth_equalityI)
    show "length promises = length (map Inr values)" using len vals by simp
  next
    fix k
    assume k: "k < length promises"
    with len full have "slots ! k \<noteq> None" by (simp add: list_all_length)
    then obtain v where v: "slots ! k = Some v" by auto
    with kept k have "promises ! k = Inr v" by blast
    then show "promises ! k = map Inr values ! k" using k len vals v by simp
  qed
qed

text \<open>
  C6. When one call of the platform's \<^verbatim>\<open>resolveModuleAsync\<close> fails, whatever the order
  in which the calls complete, \<^verbatim>\<open>resolveModulesAsync\<close> fails as a whole: it throws the
  error of a failed call and returns no list of descriptors.
\<close>

theorem resolveModulesAsync_fail_fast:
  assumes "require_platform h (''./platforms/'' @ ToString (js_get (JObj options) ''platform''))
           = Inr platformLinking"
    and "i < length searchResults" and "i \<in> set completion"
    and "resolve_entry platformLinking options (searchResults ! i) = Inl e"
  shows "\<exists>e' j. resolveModulesAsync h completion searchResults options = Throws e'
           \<and> j < length searchResults
           \<and> resolve_entry platformLinking options (searchResults ! j) = Inl e'"
proof -
  let ?promises = "map (resolve_entry platformLinking options) searchResults"
  have "i < length ?promises" and "?promises ! i = Inl e"
    using assms(2,4) by simp_all
  from Promise_all_rejects [OF assms(3) this] obtain e' j where
    "Promise_all completion ?promises = Throws e'" and "j < length ?promises"
    and "?promises ! j = Inl e'" by blast
  then have "resolveModulesAsync h completion searchResults options = Throws e'"
    and "j < length searchResults"
    and "resolve_entry platformLinking options (searchResults ! j) = Inl e'"
    using assms(1) by (simp_all add: resolveModulesAsync_def del: js_get.simps)
  then show ?thesis by blast
qed

theorem resolveModulesAsync_fail_fast_witness:
  "require_platform demo_host (''./platforms/'' @ ToString (js_get (JObj ios_options) ''platform''))
     = Inr ios_linking
   \<and> resolve_entry ios_linking ios_options (broken_results ! 1) = Inl (HostError ''no podspec'')
   \<and> (\<exists>e'. resolveModulesAsync demo_host [1, 0] broken_results ios_options = Throws e')"
proof -
  have ios: "require_platform demo_host
       (''./platforms/'' @ ToString (js_get (JObj ios_options) ''platform'')) = Inr ios_linking"
    by (simp add: demo_host_def posix_host_def ios_options_def)
  have position: "1 < length broken_results" "1 \<in> set [1, 0 :: nat]"
    by (simp_all add: broken_results_def)
  have failing: "resolve_entry ios_linking ios_options (broken_results ! 1)
                 = Inl (HostError ''no podspec'')"
    by code_simp
  from resolveModulesAsync_fail_fast [OF ios position failing] ios failing
  show ?thesis by blast
qed

section \<open>Order of the resolved modules\<close>

lemma compare_packageName_Inr:
  "compare_packageName h a b = Inr c \<Longrightarrow>
   c = localeCompare h (packageName_of a) (packageName_of b)"
  by (auto simp: compare_packageName_def packageName_of_def split: jsval.splits
           simp del: js_get.simps)

lemma insert_sorted_set:
  "insert_sorted h a bs = Inr cs \<Longrightarrow> set cs = insert a (set bs)"
proof (induction bs arbitrary: cs)
  case Nil
  then show ?case by auto
next
  case (Cons b bs)
  from Cons.prems obtain c where c: "compare_packageName h a b = Inr c"
    by (auto split: sum.splits)
  show ?case
  proof (cases "c \<le> 0")
    case True
    with c Cons.prems show ?thesis by auto
  next
    case False
    with c Cons.prems obtain bs' where "insert_sorted h a bs = Inr bs'" and "cs = b # bs'"
      by (auto split: sum.splits)
    with Cons.IH show ?thesis by auto
  qed
qed

lemma insert_sorted_length:
  "insert_sorted h a bs = Inr cs \<Longrightarrow> length cs = Suc (length bs)"
  by (induction bs arbitrary: cs) (auto split: sum.splits if_splits)

lemma insert_sorted_sorted:
  assumes "consistent_comparator (localeCompare h)"
    and "sorted_by_localeCompare h bs" and "insert_sorted h a bs = Inr cs"
  shows "sorted_by_localeCompare h cs"
  using assms(2,3)
proof (induction bs arbitrary: cs)
  case Nil
  then show ?case by (auto simp: sorted_by_localeCompare_def)
next
  case (Cons b bs)
  let ?le = "\<lambda>x y. localeCompare h (packageName_of x) (packageName_of y) \<le> 0"
  have total: "?le x y \<or> ?le y x" for x y
    using assms(1) by (simp add: consistent_comparator_def)
  have trans: "?le x y \<Longrightarrow> ?le y z \<Longrightarrow> ?le x z" for x y z
    using assms(1) unfolding consistent_comparator_def by blast
  from Cons.prems(1) have above: "\<forall>x \<in> set bs. ?le b x"
    and rest: "sorted_by_localeCompare h bs"
    by (simp_all add: sorted_by_localeCompare_def)
  from Cons.prems(2) obtain c where c: "compare_packageName h a b = Inr c"
    by (auto split: sum.splits)
  note sign = compare_packageName_Inr [OF c]
  show ?case
  proof (cases "c \<le> 0")
    case True
    then have ab: "?le a b" using sign by simp
    then have "\<forall>x \<in> set bs. ?le a x" using above trans by blast
    moreover from True c Cons.prems(2) have "cs = a # b # bs" by simp
    ultimately show ?thesis
      using ab Cons.prems(1) by (simp add: sorted_by_localeCompare_def)
  next
    case False
    then have ba: "?le b a" using sign total [of a b] by simp
    from False c Cons.prems(2) obtain bs' where
      ins: "insert_sorted h a bs = Inr bs'" and cs: "cs = b # bs'"
      by (auto split: sum.splits)
    from insert_sorted_set [OF ins] above ba have "\<forall>x \<in> set bs'. ?le b x" by simp
    moreover from Cons.IH [OF rest ins] have "sorted_by_localeCompare h bs'" .
    ultimately show ?thesis using cs by (simp add: sorted_by_localeCompare_def)
  qed
qed

lemma sort_by_packageName_sorted:
  assumes "consistent_comparator (localeCompare h)"
    and "sort_by_packageName h as = Inr bs"
  shows "sorted_by_localeCompare h bs \<and> set bs = set as \<and> length bs = length as"
  using assms(2)
proof (induction as arbitrary: bs)
  case Nil
  then show ?case by (simp add: sorted_by_localeCompare_def)
next
  case (Cons a as)
  from Cons.prems obtain bs' where
    tail: "sort_by_packageName h as = Inr bs'" and ins: "insert_sorted h a bs' = Inr bs"
    by (auto split: sum.splits)
  from Cons.IH [OF tail] have "sorted_by_localeCompare h bs'" "set bs' = set as"
    "length bs' = length as" by simp_all
  with insert_sorted_sorted [OF assms(1) _ ins] insert_sorted_set [OF ins]
    insert_sorted_length [OF ins]
  show ?case by simp
qed

lemma resolveModulesAsync_ReturnsD:
  assumes "resolveModulesAsync h completion searchResults options = Returns descriptors"
  shows "\<exists>platformLinking resolved.
           require_platform h (''./platforms/'' @ ToString (js_get (JObj options) ''platform''))
             = Inr platformLinking
         \<and> map (resolve_entry platformLinking options) searchResults = map Inr resolved
         \<and> sort_by_packageName h (filter truthy resolved) = Inr descriptors"
proof -
  from assms obtain platformLinking resolved where
    pl: "require_platform h (''./platforms/'' @ ToString (js_get (JObj options) ''platform''))
           = Inr platformLinking"
    and all: "Promise_all completion (map (resolve_entry platformLinking options) searchResults)
              = Returns resolved"
    and sorted: "sort_by_packageName h (filter truthy resolved) = Inr descriptors"
    by (auto simp: resolveModulesAsync_def split: sum.splits outcome.splits
             simp del: js_get.simps)
  from Promise_all_Returns [OF all] pl sorted show ?thesis by blast
qed

lemma compare_by_eq:
  "compare_by w a b =
     (if map w a < map w b then - 1 else if map w a = map w b then 0 else 1)"
  by (induction w a b rule: compare_by.induct) auto

lemma letters_localeCompare_le:
  "letters_localeCompare a b \<le> 0 \<longleftrightarrow>
     map letter_weight a < map letter_weight b
     \<or> (map letter_weight a = map letter_weight b \<and> map case_weight a \<le> map case_weight b)"
  by (auto simp: letters_localeCompare_def compare_by_eq Let_def)

lemma lex_pair_total:
  fixes x y :: "nat list" and x' y' :: "nat list"
  shows "(x < y \<or> (x = y \<and> x' \<le> y')) \<or> (y < x \<or> (y = x \<and> y' \<le> x'))"
  by (metis linorder_less_linear linorder_le_cases)

lemma lex_pair_trans:
  fixes x y z :: "nat list" and x' y' z' :: "nat list"
  assumes "x < y \<or> (x = y \<and> x' \<le> y')" and "y < z \<or> (y = z \<and> y' \<le> z')"
  shows "x < z \<or> (x = z \<and> x' \<le> z')"
  using assms by (metis order_less_trans order_trans)

lemma letters_localeCompare_consistent: "consistent_comparator letters_localeCompare"
  unfolding consistent_comparator_def letters_localeCompare_le
  using lex_pair_total lex_pair_trans by (intro conjI allI impI) blast+

text \<open>
  C1. The specification has the result of \<^verbatim>\<open>resolveModulesAsync\<close> sorted by package name
  in plain lexicographic order. The code compares with \<^verbatim>\<open>localeCompare\<close>, which is the
  collation of the host and not the order of the character codes: with the names
  \<^verbatim>\<open>Beta-module\<close> and \<^verbatim>\<open>alpha-module\<close> the result has \<^verbatim>\<open>alpha-module\<close> first, and in
  the order of the character codes the capital letter comes first.
\<close>

theorem resolveModulesAsync_not_lexicographic:
  "resolveModulesAsync demo_host [0, 1, 2] mixed_case_results ios_options
     = Returns [alpha_descriptor, beta_descriptor]
   \<and> \<not> sorted_lexicographically [alpha_descriptor, beta_descriptor]"
  by code_simp

text \<open>
  C1, as the code has it. Whatever the order of the entries of the search results and
  whatever the order in which the calls of the platform module complete, the list returned
  by \<^verbatim>\<open>resolveModulesAsync\<close> is in ascending order of the package names under
  \<^verbatim>\<open>localeCompare\<close>, given that this comparison is consistent; and the list does not depend
  on the order of completion.
\<close>

theorem resolveModulesAsync_sorted:
  assumes "consistent_comparator (localeCompare h)"
    and "resolveModulesAsync h completion searchResults options = Returns descriptors"
  shows "sorted_by_localeCompare h descriptors
         \<and> (\<forall>completion' descriptors'.
               resolveModulesAsync h completion' searchResults options = Returns descriptors' \<longrightarrow>
               descriptors' = descriptors)"
proof -
  from resolveModulesAsync_ReturnsD [OF assms(2)] obtain platformLinking resolved where
    pl: "require_platform h (''./platforms/'' @ ToString (js_get (JObj options) ''platform''))
           = Inr platformLinking"
    and all: "map (resolve_entry platformLinking options) searchResults = map Inr resolved"
    and sorted: "sort_by_packageName h (filter truthy resolved) = Inr descriptors"
    by blast
  have "descriptors' = descriptors"
    if "resolveModulesAsync h completion' searchResults options = Returns descriptors'"
    for completion' descriptors'
  proof -
    from resolveModulesAsync_ReturnsD [OF that] pl obtain resolved' where
      all': "map (resolve_entry platformLinking options) searchResults = map Inr resolved'"
      and sorted': "sort_by_packageName h (filter truthy resolved') = Inr descriptors'"
      by auto
    from all all' have "map Inr resolved' = (map Inr resolved :: (error + jsval) list)" by simp
    then have "resolved' = resolved" by (simp add: inj_map_eq_map)
    with sorted sorted' show ?thesis by simp
  qed
  with sort_by_packageName_sorted [OF assms(1) sorted] show ?thesis by blast
qed

theorem resolveModulesAsync_sorted_witness:
  "resolveModulesAsync demo_host [2, 0, 1] mixed_case_results ios_options
     = Returns [alpha_descriptor, beta_descriptor]
   \<and> resolveModulesAsync demo_host [0, 1, 2] mixed_case_results ios_options
     = Returns [alpha_descriptor, beta_descriptor]
   \<and> sorted_by_localeCompare demo_host [alpha_descriptor, beta_descriptor]"
proof -
  have consistent: "consistent_comparator (localeCompare demo_host)"
    using letters_localeCompare_consistent by (simp add: demo_host_def posix_host_def)
  have run: "resolveModulesAsync demo_host [2, 0, 1] mixed_case_results ios_options
     = Returns [alpha_descriptor, beta_descriptor]"
    by code_simp
  have other: "resolveModulesAsync demo_host [0, 1, 2] mixed_case_results ios_options
     = Returns [alpha_descriptor, beta_descriptor]"
    by code_simp
  from resolveModulesAsync_sorted [OF consistent run, THEN conjunct1] run other
  show ?thesis by (intro conjI)
qed

end
